theory Spec2Isabelle
  imports Main
begin

section \<open>Python strings\<close>

text \<open>
  A Python \<open>str\<close> is a sequence of Unicode code points, so a string is a list of
  natural numbers here. ASCII literals are written through \<open>asc\<close>; the Korean
  literals of the source are given by their code points.
\<close>

type_synonym ustr = "nat list"

definition asc :: "string \<Rightarrow> ustr" where
  "asc s = map of_char s"

definition nl :: ustr where
  "nl = [10]"

text \<open>The characters for which \<open>str.isspace\<close> holds: what \<open>str.strip()\<close> removes.\<close>

definition is_space :: "nat \<Rightarrow> bool" where
  "is_space c \<longleftrightarrow>
     (9 \<le> c \<and> c \<le> 13) \<or> (28 \<le> c \<and> c \<le> 32) \<or> c = 133 \<or> c = 160 \<or> c = 5760 \<or>
     (8192 \<le> c \<and> c \<le> 8202) \<or> c = 8232 \<or> c = 8233 \<or> c = 8239 \<or> c = 8287 \<or> c = 12288"

definition strip_with :: "(nat \<Rightarrow> bool) \<Rightarrow> ustr \<Rightarrow> ustr" where
  "strip_with P s = rev (dropWhile P (rev (dropWhile P s)))"

text \<open>\<open>s.strip()\<close> and \<open>s.strip(chars)\<close>.\<close>

definition strip :: "ustr \<Rightarrow> ustr" where
  "strip s = strip_with is_space s"

definition strip_chars :: "ustr \<Rightarrow> ustr \<Rightarrow> ustr" where
  "strip_chars chars s = strip_with (\<lambda>c. c \<in> set chars) s"

text \<open>\<open>s.startswith(p)\<close>, \<open>s.endswith(p)\<close>, \<open>p in s\<close> and \<open>s.find(p)\<close>.\<close>

definition startswith :: "ustr \<Rightarrow> ustr \<Rightarrow> bool" where
  "startswith s p \<longleftrightarrow> take (length p) s = p"

definition endswith :: "ustr \<Rightarrow> ustr \<Rightarrow> bool" where
  "endswith s p \<longleftrightarrow> length p \<le> length s \<and> drop (length s - length p) s = p"

fun str_in :: "ustr \<Rightarrow> ustr \<Rightarrow> bool" where
  "str_in p [] = (p = [])"
| "str_in p (c # cs) = (startswith (c # cs) p \<or> str_in p cs)"

fun find_at :: "ustr \<Rightarrow> ustr \<Rightarrow> int \<Rightarrow> int" where
  "find_at [] p i = (if p = [] then i else - 1)"
| "find_at (c # cs) p i = (if startswith (c # cs) p then i else find_at cs p (i + 1))"

definition str_find :: "ustr \<Rightarrow> ustr \<Rightarrow> int" where
  "str_find s p = find_at s p 0"

section \<open>Exceptions and JSON values\<close>

text \<open>
  \<open>JSONDecodeError msg doc\<close> carries the decoder's message and the text it was given.
  \<open>Chained e c\<close> is the exception \<open>e\<close> raised inside the handler of \<open>c\<close>, which Python
  keeps as the context of \<open>e\<close>. \<open>ExternalError\<close> stands for what the collaborators
  outside the repository raise (the model service, the file system, the mail library).
\<close>

datatype exn =
    ValueError ustr
  | KeyError ustr
  | IndexError
  | TypeError
  | UnboundLocalError
  | JSONDecodeError ustr ustr
  | ExternalError ustr
  | Chained exn exn

text \<open>
  \<open>s.split(sep)\<close>: the pieces between the non-overlapping occurrences of \<open>sep\<close>, found
  from the left. An empty separator raises \<open>ValueError\<close>.
\<close>

function split_acc :: "ustr \<Rightarrow> ustr \<Rightarrow> ustr \<Rightarrow> ustr list" where
  "split_acc sep acc s =
     (if s = [] then [rev acc]
      else if sep \<noteq> [] \<and> startswith s sep
        then rev acc # split_acc sep [] (drop (length sep) s)
      else split_acc sep (hd s # acc) (tl s))"
  by pat_completeness auto
termination
  by (relation "measure (\<lambda>(sep, acc, s). length s)") auto

definition split_str :: "ustr \<Rightarrow> ustr \<Rightarrow> exn + ustr list" where
  "split_str s sep =
     (if sep = [] then Inl (ValueError (asc ''empty separator'')) else Inr (split_acc sep [] s))"

text \<open>\<open>xs[i]\<close> for a non-negative index.\<close>

definition index :: "'a list \<Rightarrow> nat \<Rightarrow> exn + 'a" where
  "index xs i = (if i < length xs then Inr (xs ! i) else Inl IndexError)"

text \<open>
  The values \<open>json.loads\<close> produces. A float is kept as sign, mantissa and binary
  exponent, or as one of the non-finite values the decoder accepts; a \<open>dict\<close> is an association
  list with one binding per key.
\<close>

datatype pyfloat = Finite bool nat int | Infinite bool | NaN

datatype json =
    JNull
  | JBool bool
  | JInt int
  | JFloat pyfloat
  | JStr ustr
  | JArr "json list"
  | JObj "(ustr \<times> json) list"

section \<open>Extraction of the record from the model's reply\<close>

text \<open>The marker \<open><\<close>U+CD9C U+B825 U+ACB0 U+ACFC\<open>>\<close> (with a space in the middle) and the fence.\<close>

definition marker :: ustr where
  "marker = asc ''<'' @ [52636, 47141] @ asc '' '' @ [44208, 44284] @ asc ''>''"

definition fence :: ustr where
  "fence = asc ''```''"

text \<open>The message of the error raised at the end of \<open>_parse_response\<close>.\<close>

definition json_fail_msg :: ustr where
  "json_fail_msg = asc ''JSON '' @ [54028, 49905] @ asc '' '' @ [49892, 54056]"

text \<open>Lines 65 to 68 of gongja.py: the text after the marker, or the whole text, trimmed.\<close>

definition marker_pass :: "ustr \<Rightarrow> exn + ustr" where
  "marker_pass content =
     (if str_in marker content then
        (case split_str content marker of
           Inl e \<Rightarrow> Inl e
         | Inr parts \<Rightarrow>
             (case index parts 1 of
                Inl e \<Rightarrow> Inl e
              | Inr part \<Rightarrow> Inr (strip part)))
      else Inr (strip content))"

text \<open>Lines 71 to 79: the first line and the closing fence of a fenced block.\<close>

definition fence_pass :: "ustr \<Rightarrow> ustr" where
  "fence_pass json_text =
     (if startswith json_text fence then
        (let first_newline = str_find json_text nl;
             t1 = (if first_newline \<noteq> - 1
                   then strip (drop (nat first_newline) json_text)
                   else json_text)
         in if endswith t1 fence then strip (take (length t1 - 3) t1) else t1)
      else json_text)"

text \<open>Lines 65 to 82: the text handed to \<open>json.loads\<close>.\<close>

definition clean_text :: "ustr \<Rightarrow> exn + ustr" where
  "clean_text content =
     (case marker_pass content of
        Inl e \<Rightarrow> Inl e
      | Inr json_text \<Rightarrow> Inr (strip_chars (asc '': '' @ nl) (fence_pass json_text)))"

text \<open>
  The reply of the chat completion, as \<open>model_dump()\<close> returns it: a list of choices,
  each with a message whose content is a string or \<open>None\<close>.
\<close>

record chat_message =
  content :: "ustr option"

record choice =
  message :: chat_message

record response =
  choices :: "choice list"

text \<open>
  What \<open>_parse_response\<close> prints, in order:
  \<open>OriginalContent\<close> for line 62, \<open>JsonDecodeFailure\<close> (with the decoder's error) and
  \<open>AttemptedText\<close> for lines 88 and 89, \<open>ParseFailure\<close> and \<open>OriginalResponse\<close> for
  lines 93 and 94.
\<close>

datatype event =
    OriginalContent "ustr option"
  | JsonDecodeFailure exn
  | AttemptedText ustr
  | ParseFailure exn
  | OriginalResponse "ustr option"

text \<open>The inner handler (lines 87 to 90) runs for a \<open>JSONDecodeError\<close> only.\<close>

fun decode_diagnostics :: "exn \<Rightarrow> ustr \<Rightarrow> event list" where
  "decode_diagnostics (JSONDecodeError m d) json_text =
     [JsonDecodeFailure (JSONDecodeError m d), AttemptedText json_text]"
| "decode_diagnostics e json_text = []"

text \<open>
  \<open>_parse_response\<close>. The decoder \<open>json.loads\<close> of the standard library is the
  parameter \<open>loads\<close>. The result is what was printed and what was returned or raised.
  With no choice in the reply, line 61 raises before \<open>content\<close> is bound, and the
  handler's second print raises in turn.
\<close>

definition parse_response :: "(ustr \<Rightarrow> exn + json) \<Rightarrow> response \<Rightarrow> event list \<times> (exn + json)" where
  "parse_response loads r =
     (case choices r of
        [] \<Rightarrow> ([ParseFailure IndexError], Inl (Chained UnboundLocalError IndexError))
      | ch # _ \<Rightarrow>
          (case content (message ch) of
             None \<Rightarrow>
               ([OriginalContent None, ParseFailure TypeError, OriginalResponse None],
                Inl (Chained (ValueError json_fail_msg) TypeError))
           | Some c \<Rightarrow>
               (case clean_text c of
                  Inl e \<Rightarrow>
                    ([OriginalContent (Some c), ParseFailure e, OriginalResponse (Some c)],
                     Inl (Chained (ValueError json_fail_msg) e))
                | Inr json_text \<Rightarrow>
                    (case loads json_text of
                       Inr v \<Rightarrow> ([OriginalContent (Some c)], Inr v)
                     | Inl e \<Rightarrow>
                         (OriginalContent (Some c) # decode_diagnostics e json_text @
                            [ParseFailure e, OriginalResponse (Some c)],
                          Inl (Chained (ValueError json_fail_msg) e))))))"

text \<open>The reply whose single choice carries the text \<open>c\<close>.\<close>

definition reply :: "ustr \<Rightarrow> response" where
  "reply c = \<lparr>choices = [\<lparr>message = \<lparr>content = Some c\<rparr>\<rparr>]\<rparr>"

text \<open>
  A decoder for evaluating the model on concrete replies. It answers as \<open>json.loads\<close>
  does on the texts \<open>{"a":1}\<close>, \<open>{"STEP-1": "hi", "STEP-2": false}\<close> and
  \<open>{"STEP-1": "M"}\<close>, where \<open>M\<close> is the marker, on the text \<open>{"STEP-1": "\<close>, whose
  string is not closed, and on every text that is empty or whose first character is
  neither white space, nor a byte order mark, nor the start of a JSON value: there the
  library reports \<open>Expecting value\<close> at position 0. Other texts are outside what it
  decodes.
\<close>

definition value_start :: "ustr \<Rightarrow> bool" where
  "value_start s \<longleftrightarrow>
     s \<noteq> [] \<and>
     (hd s \<in> set (asc ''{[\"-0123456789'') \<or> hd s \<in> {32, 9, 10, 13, 65279} \<or>
      startswith s (asc ''null'') \<or> startswith s (asc ''true'') \<or>
      startswith s (asc ''false'') \<or> startswith s (asc ''NaN'') \<or>
      startswith s (asc ''Infinity''))"

definition sample_loads :: "ustr \<Rightarrow> exn + json" where
  "sample_loads s =
     (if s = asc ''{\"a\":1}'' then Inr (JObj [(asc ''a'', JInt 1)])
      else if s = asc ''{\"STEP-1\": \"hi\", \"STEP-2\": false}''
        then Inr (JObj [(asc ''STEP-1'', JStr (asc ''hi'')), (asc ''STEP-2'', JBool False)])
      else if s = asc ''{\"STEP-1\": \"'' @ marker @ asc ''\"}''
        then Inr (JObj [(asc ''STEP-1'', JStr marker)])
      else if s = asc ''{\"STEP-1\": \"''
        then Inl (JSONDecodeError
                    (asc ''Unterminated string starting at: line 1 column 12 (char 11)'') s)
      else if \<not> value_start s
        then Inl (JSONDecodeError (asc ''Expecting value: line 1 column 1 (char 0)'') s)
      else Inl (ExternalError (asc ''not decoded'')))"

text \<open>
  Texts that the trimming passes leave alone: \<open>strippable\<close> characters are the ones
  \<open>strip()\<close> or \<open>strip(': \\n')\<close> remove, and the text of a JSON object starts with an
  opening and ends with a closing brace.
\<close>

definition strippable :: "nat \<Rightarrow> bool" where
  "strippable c \<longleftrightarrow> is_space c \<or> c = 58"

definition json_object_text :: "ustr \<Rightarrow> bool" where
  "json_object_text t \<longleftrightarrow> t \<noteq> [] \<and> hd t = 123 \<and> last t = 125"

section \<open>Decoded records\<close>

text \<open>The truth value Python gives a decoded value (\<open>not v\<close>, \<open>if v\<close>).\<close>

fun truthy :: "json \<Rightarrow> bool" where
  "truthy JNull = False"
| "truthy (JBool b) = b"
| "truthy (JInt i) = (i \<noteq> 0)"
| "truthy (JFloat (Finite s m e)) = (m \<noteq> 0)"
| "truthy (JFloat f) = True"
| "truthy (JStr s) = (s \<noteq> [])"
| "truthy (JArr xs) = (xs \<noteq> [])"
| "truthy (JObj kvs) = (kvs \<noteq> [])"

text \<open>
  \<open>v[key]\<close> with a string key: a missing key of a \<open>dict\<close> raises \<open>KeyError\<close>, any
  other value raises \<open>TypeError\<close>.
\<close>

fun subscript :: "json \<Rightarrow> ustr \<Rightarrow> exn + json" where
  "subscript (JObj kvs) k = (case map_of kvs k of None \<Rightarrow> Inl (KeyError k) | Some v \<Rightarrow> Inr v)"
| "subscript v k = Inl TypeError"

definition bindE :: "exn + 'a \<Rightarrow> ('a \<Rightarrow> exn + 'b) \<Rightarrow> exn + 'b" where
  "bindE m f = (case m of Inl e \<Rightarrow> Inl e | Inr v \<Rightarrow> f v)"

definition subscript2 :: "json \<Rightarrow> ustr \<Rightarrow> ustr \<Rightarrow> exn + json" where
  "subscript2 v k1 k2 = bindE (subscript v k1) (\<lambda>u. subscript u k2)"

text \<open>
  The keys of the records: the four steps, and the Korean keys for summary (U+C694
  U+C57D), lacking aspect, sub-concept and reason, and for the section, number and text
  of a passage.
\<close>

definition step1 :: ustr where "step1 = asc ''STEP-1''"
definition step2 :: ustr where "step2 = asc ''STEP-2''"
definition step3 :: ustr where "step3 = asc ''STEP-3''"
definition step4 :: ustr where "step4 = asc ''STEP-4''"
definition key_summary :: ustr where "key_summary = [50836, 50557]"
definition key_lacking :: ustr where "key_lacking = [48512, 51313, 54632]"
definition key_concept :: ustr where "key_concept = [54616, 50948, 44060, 45392]"
definition key_reason :: ustr where "key_reason = [51060, 50976]"
definition key_section :: ustr where "key_section = [54200]"
definition key_number :: ustr where "key_number = [44396, 51208, 48264, 54840]"
definition key_text :: ustr where "key_text = [45236, 50857]"

section \<open>The collaborators and the state\<close>

text \<open>A request to the model: the messages, each a role and a content.\<close>

type_synonym request = "(ustr \<times> json) list"

text \<open>
  The dictionary \<open>row_data\<close> of \<open>save_to_csv\<close>, and one line of a log file: the cells
  of the header or of a row, as \<open>csv.reader\<close> gives them back. How a cell is quoted in
  the text of the file is the \<open>csv\<close> module's business.
\<close>

record log_row =
  timestamp :: ustr
  source :: ustr
  email :: ustr
  original_concern :: json
  concern_summary :: json
  lacking_aspect :: json
  concept :: json
  concept_reason :: json
  selected_quote :: json
  quote_reason :: json
  advice :: json
  analysis_time :: pyfloat
  advice_time :: pyfloat

datatype csv_line = Header "ustr list" | Row "ustr list"

text \<open>A reply mail that was handed to the SMTP server.\<close>

record outbound =
  to_addr :: ustr
  subject_line :: ustr
  html :: ustr

text \<open>
  What the program reads from outside, as parameters:
  \<open>call_model n msgs\<close> is the answer of the model service to the request \<open>msgs\<close> made
  after \<open>n\<close> earlier requests, with the measured time, or the error it raises;
  \<open>json_loads\<close> is \<open>json.loads\<close>; \<open>noneo_file\<close> is the decoded content of
  \<open>files/noneo_data.json\<close> or the error of opening or decoding it;
  \<open>rng_sample n k\<close> gives the positions \<open>random.sample\<close> draws from a population of \<open>n\<close>;
  \<open>py_format\<close> is \<open>str(v)\<close>, the text that an f-string and the \<open>csv\<close> writer give a
  value, and \<open>py_repr\<close> the text an f-string gives a list of strings; \<open>now_month\<close> and \<open>now_stamp\<close> are the clock, formatted;
  \<open>introduction\<close> is the processor's second message, built from the knowledge base
  \<open>gomins.py\<close>; \<open>bytes_decode\<close> is \<open>bytes.decode\<close> with a codec name;
  \<open>lower_char before c after\<close> is what \<open>str.lower\<close> puts for the character \<open>c\<close> between
  \<open>before\<close> and \<open>after\<close>; \<open>render_mail\<close> loads and renders the reply template with the
  original text and the advice; \<open>smtp_deliver\<close> tells whether the SMTP dialogue succeeds.
\<close>

record env =
  call_model :: "nat \<Rightarrow> request \<Rightarrow> exn + (response \<times> pyfloat)"
  json_loads :: "ustr \<Rightarrow> exn + json"
  noneo_file :: "exn + json"
  rng_sample :: "nat \<Rightarrow> nat \<Rightarrow> nat list"
  py_format :: "json \<Rightarrow> ustr"
  py_repr :: "ustr list \<Rightarrow> ustr"
  now_month :: ustr
  now_stamp :: ustr
  introduction :: ustr
  bytes_decode :: "ustr \<Rightarrow> nat list \<Rightarrow> exn + ustr"
  lower_char :: "ustr \<Rightarrow> nat \<Rightarrow> ustr \<Rightarrow> ustr"
  render_mail :: "ustr \<Rightarrow> json \<Rightarrow> exn + ustr"
  smtp_deliver :: "outbound \<Rightarrow> bool"

text \<open>
  What the program changes: the requests made to the model, in order, the diagnostics
  that \<open>_parse_response\<close> printed, the log files by name, and the mails sent.
\<close>

record world =
  calls :: "request list"
  console :: "event list"
  files :: "ustr \<Rightarrow> csv_line list option"
  outbox :: "outbound list"

section \<open>Prompts\<close>

text \<open>The literal text of the classification prompt before the opening fence (gongja.py, lines 112 to 121).\<close>

definition gomin_head :: ustr where
  "gomin_head =
     nl @ asc ''        '' @ [45817, 49888, 51008] @ asc '' '' @ [49345, 45824, 48169, 51032] @
     asc '' '' @ [44256, 48124, 51012] @ asc '' '' @ [49345, 45812, 54616, 44256] @ asc '' '' @
     [51080, 49845, 45768, 45796] @ asc ''.'' @ nl @ asc ''        '' @ [45436, 50612, 51032] @
     asc '' '' @ [54645, 49900] @ asc '' '' @ [45236, 50857, 51012] @ asc '' '' @
     [48148, 53461, 51004, 47196] @ asc '' '' @ [49345, 45824, 48169, 51032] @ asc '' '' @
     [44256, 48124, 50640] @ asc '' '' @ [46020, 50880, 51012] @ asc '' '' @ [51460] @
     asc '' '' @ [49688] @ asc '' '' @ [51080, 45716] @ asc '' '' @ [54620, 51088, 47484] @
     asc '' '' @ [48152, 54872, 54644, 50556] @ asc '' '' @ [54633, 45768, 45796] @ asc ''.'' @
     nl @ nl @ asc ''        STEP'' @ [48324, 47196] @ asc '' '' @ [51089, 50629, 51012] @
     asc '' '' @ [49688, 54665, 54616, 47732, 49436] @ asc '' '' @ [44536] @ asc '' '' @
     [44208, 44284, 47484] @ asc '' '' @ [50500, 47000, 51032] @ asc '' <'' @ [52636, 47141] @
     asc '' '' @ [44208, 44284] @ asc ''> JSON '' @ [54252, 47607, 50640] @ asc '' '' @
     [51089, 49457, 54616, 49464, 50836] @ asc ''.'' @ nl @ asc ''        STEP-1. '' @
     [50500, 47000] @ asc '' '' @ [49464] @ asc '' '' @ [44060, 51032] @ asc '' '' @
     [48177, 54001, 51004, 47196] @ asc '' '' @ [44396, 48516, 46108] @ asc '' '' @
     [53581, 49828, 53944, 47484] @ asc '' '' @ [50896, 47928] @ asc '' '' @
     [44536, 45824, 47196] @ asc '' '' @ [51069, 50612, 50732] @ asc '' '' @ [44163] @ nl @
     asc ''        STEP-2. '' @ [51077, 47141, 48155, 51008] @ asc '' '' @
     [53581, 49828, 53944, 44032] @ asc '' '' @ [44256, 48124, 51060] @ asc '' '' @
     [50500, 45768, 46972, 47732] @ asc '' false'' @ [47484] @ asc '' '' @
     [54364, 44592, 54616, 44256] @ asc '' STEP-3'' @ [47484] @ asc '' '' @
     [51652, 54665, 54616, 51648] @ asc '' '' @ [47568] @ asc '' '' @ [44163] @
     asc ''. ex) '' @ [50504, 45397, 54616, 49464, 50836] @ asc '' -> false'' @ nl @
     asc ''        STEP-3. '' @ [53581, 49828, 53944, 50640] @ asc '' '' @ [50612, 46500] @
     asc '' <'' @ [44256, 48124] @ asc ''>'' @ [51060] @ asc '' '' @
     [46308, 50612, 51080, 45716, 51648] @ asc '' '' @ [50836, 50557, 54624] @ asc '' '' @
     [44163] @ nl @ asc ''        STEP-4. <'' @ [44256, 48124] @ asc ''>'' @ [50640, 49436] @
     asc '' '' @ [45208, 53440, 45208, 45716] @ asc '' '' @ [49345, 45824, 48169, 51032] @
     asc '' <'' @ [48512, 51313, 54632] @ asc ''>'' @ [51012] @ asc '' '' @
     [51060, 50556, 44592, 54616, 44256] @ asc '', '' @ [44536, 50752] @ asc '' '' @
     [44288, 47144, 46108] @ asc '' '' @ [20161, 51032] @ asc '' <'' @
     [54616, 50948, 44060, 45392] @ asc ''>'' @ [51060] @ asc '' '' @
     [47924, 50631, 51064, 51648] @ asc '' '' @ [44256, 47476, 44256] @ asc '', <'' @
     [49440, 53469, 54620] @ asc '' '' @ [51060, 50976] @ asc ''>'' @ [50752] @ asc '' '' @
     [54632, 44760] @ asc '' '' @ [48152, 54872, 54624] @ asc '' '' @ [44163] @ nl @
     asc ''        ''"

text \<open>The literal text of the classification prompt after the closing fence (lines 121 to 124).\<close>

definition gomin_tail :: ustr where
  "gomin_tail =
     nl @ asc ''        ---'' @ nl @ asc ''        <'' @ [52636, 47141] @ asc '' '' @
     [44208, 44284] @ asc ''> : {\"STEP-1\": <'' @ [51077, 47141, 53581, 49828, 53944] @
     asc ''>, \"STEP-2\": <True/False>, \"STEP-3\": {\"'' @ [50836, 50557] @ asc ''\": <'' @
     [44256, 48124] @ asc ''>}, \"STEP-4\": {\"'' @ [48512, 51313, 54632] @ asc ''\": <'' @
     [48512, 51313, 54632] @ asc ''>, \"'' @ [54616, 50948, 44060, 45392] @ asc ''\": <'' @
     [54616, 50948, 44060, 45392] @ asc ''>, \"'' @ [51060, 50976] @ asc ''\": <'' @
     [49440, 53469, 54620] @ asc '' '' @ [51060, 50976] @ asc ''>}}'' @ nl @ asc ''        ''"

text \<open>The literal text of the advice prompt before the list of passages (lines 161 to 167).\<close>

definition advice_head :: ustr where
  "advice_head =
     nl @ asc ''        '' @ [45817, 49888, 51008] @ asc '' '' @ [51060, 51228] @ asc '' '' @
     [44256, 48124, 50640] @ asc '' '' @ [45824, 54620] @ asc '' '' @
     [54644, 44208, 52293, 51012] @ asc '' '' @ [51228, 49884, 54644, 50556] @ asc '' '' @
     [54633, 45768, 45796] @ asc ''.'' @ nl @ nl @ asc ''        STEP'' @ [48324, 47196] @
     asc '' '' @ [51089, 50629, 51012] @ asc '' '' @ [49688, 54665, 54616, 47732, 49436] @
     asc '' '' @ [44536] @ asc '' '' @ [44208, 44284, 47484] @ asc '' '' @
     [50500, 47000, 51032] @ asc '' <'' @ [52636, 47141] @ asc '' '' @ [44208, 44284] @
     asc ''> JSON '' @ [54252, 47607, 50640] @ asc '' '' @
     [51089, 49457, 54616, 49464, 50836] @ asc ''.'' @ nl @ asc ''        STEP-1. '' @
     [50526, 49440] @ asc '' '' @ [45824, 54868, 50640, 49436] @ asc '' '' @ [47568, 54620] @
     asc '' <'' @ [44256, 48124] @ asc ''>'' @ [44284] @ asc '' <'' @ [48512, 51313, 54632] @
     asc ''>, <'' @ [54616, 50948, 44060, 45392] @ asc ''>'' @ [44284] @ asc '' '' @
     [44536, 47484] @ asc '' <'' @ [49440, 53469, 54620] @ asc '' '' @ [51060, 50976] @
     asc ''>'' @ [47484] @ asc '' '' @ [45796, 49884] @ asc '' '' @
     [51088, 49464, 54616, 44172] @ asc '' '' @ [49436, 49696, 54624] @ asc '' '' @ [44163] @
     nl @ asc ''        STEP-2. <'' @ [48512, 51313, 54632] @ asc ''>'' @ [51012] @ asc '' '' @
     [48372, 50756, 54624] @ asc '' '' @ [49688] @ asc '' '' @ [51080, 45716] @ asc '' '' @
     [45436, 50612, 51032] @ asc '' '' @ [44396, 51208] @ asc '' '' @ [51473] @ asc '' '' @
     [54616, 45208, 47564] @ asc '' '' @ [45796, 51020] @ asc '' '' @ [51473, 50640, 49436] @
     asc '' '' @ [52286, 50500, 49436] @ asc '' '' @ [48152, 54872, 54624] @ asc '' '' @
     [44163] @ asc '':'' @ nl @ asc ''        ''"

text \<open>The literal text of the advice prompt after the list of passages (lines 167 to 172).\<close>

definition advice_tail :: ustr where
  "advice_tail =
     nl @ asc ''        STEP-3. STEP-1'' @ [50640, 49436] @ asc '' '' @ [51221, 47532, 54620] @
     asc '' '' @ [44163, 51012] @ asc '' '' @ [53664, 45824, 47196] @ asc '' <'' @
     [44396, 51208, 51012] @ asc '' '' @ [49440, 53469, 54620] @ asc '' '' @ [51060, 50976] @
     asc ''>'' @ [47484] @ asc '' '' @ [51201, 51012] @ asc '' '' @ [44163] @ nl @
     asc ''        STEP-4. STEP-1'' @ [50640, 49436] @ asc '' '' @ [51221, 47532, 54620] @
     asc '' '' @ [45236, 50857, 44284] @ asc '' <'' @ [44396, 51208, 51012] @ asc '' '' @
     [49440, 53469, 54620] @ asc '' '' @ [51060, 50976] @ asc ''>'' @ [47484] @ asc '' '' @
     [51060, 50857, 54644] @ asc '' '' @ [49345, 45824, 48169, 51012] @ asc '' '' @
     [51652, 49900, 51004, 47196] @ asc '' '' @ [46020, 50872] @ asc '' '' @ [49688] @
     asc '' '' @ [51080, 45716] @ asc '' <'' @ [51312, 50616] @ asc ''>'' @ [51012] @
     asc '' '' @ [51089, 49457, 54624] @ asc '' '' @ [44163] @ asc ''. <'' @ [51312, 50616] @
     asc ''>'' @ [51008] @ asc '' '' @ [54616, 50948] @ asc '' '' @ [44060, 45392, 44284] @
     asc '' '' @ [54632, 44760] @ asc '' '' @ [49444, 47749, 54616, 47728] @ asc '' '' @
     [44600, 44172] @ asc '' '' @ [51089, 49457, 54624] @ asc '' '' @ [44163] @ nl @
     asc ''        ---'' @ nl @ asc ''        <'' @ [52636, 47141] @ asc '' '' @
     [44208, 44284] @ asc ''> : {\"STEP-1\": {\"'' @ [44256, 48124] @ asc ''\": <'' @
     [44256, 48124] @ asc ''>, \"'' @ [48512, 51313] @ asc ''\": <'' @ [48512, 51313, 54632] @
     asc ''>, \"'' @ [54616, 50948, 44060, 45392] @ asc ''\": <'' @
     [54616, 50948, 44060, 45392] @ asc ''>, \"'' @ [51060, 50976] @ asc ''\": <'' @
     [49440, 53469, 54620] @ asc '' '' @ [51060, 50976] @ asc ''>}, \"STEP-2\": <'' @
     [45436, 50612, 44396, 51208] @ asc ''>, \"STEP-3\": <'' @ [44396, 51208, 51012] @
     asc '' '' @ [49440, 53469, 54620] @ asc '' '' @ [51060, 50976] @
     asc ''>, \"STEP-4\": <'' @ [51312, 50616] @ asc ''>}'' @ nl @ asc ''        ''"

text \<open>Literal piece 1 of the context message (lines 177 to 180).\<close>

definition context_lit1 :: ustr where
  "context_lit1 =
     [51088, 45348, 51032] @ asc '' '' @ [44256, 48124, 51008] @ asc '' ''"

text \<open>Literal piece 2 of the context message (lines 177 to 180).\<close>

definition context_lit2 :: ustr where
  "context_lit2 =
     [51060, 45348] @ asc ''.'' @ nl @ asc ''                  '' @ [44536] @ asc '' '' @
     [49345, 54889, 50640, 49436] @ asc '' '' @ [51088, 45348, 51032] @ asc '' '' @
     [48512, 51313, 54632, 51008] @ asc '' ''"

text \<open>Literal piece 3 of the context message (lines 177 to 180).\<close>

definition context_lit3 :: ustr where
  "context_lit3 =
     [51068] @ asc '' '' @ [44163, 51060, 44256] @ asc '', '' @ nl @
     asc ''                  '' @ [44536, 44163, 51012] @ asc '' '' @ [48372, 50756, 54624] @
     asc '' '' @ [49688] @ asc '' '' @ [51080, 45716] @ asc '' '' @ [51064, 51032] @
     asc '' '' @ [54616, 50948, 44060, 45392, 51008] @ asc '' ''"

text \<open>Literal piece 4 of the context message (lines 177 to 180).\<close>

definition context_lit4 :: ustr where
  "context_lit4 =
     [50640] @ asc '' '' @ [54644, 45817, 54616, 45348] @ asc ''. '' @ nl @
     asc ''                  '' @ [44536, 44163, 51012] @ asc '' '' @ [44256, 47480] @
     asc '' '' @ [51060, 50976, 45716] @ asc '' ''"

text \<open>Literal piece 5 of the context message (lines 177 to 180).\<close>

definition context_lit5 :: ustr where
  "context_lit5 =
     [50752] @ asc '' '' @ [44057, 45348] @ asc ''.''"

text \<open>The system message of the processor (line 32).\<close>

definition system_content :: ustr where
  "system_content =
     [45817, 49888, 51008] @ asc '' '' @ [44277, 51088, 51077, 45768, 45796] @ asc ''. '' @
     [44277, 51088, 44032] @ asc '' '' @ [50424] @ asc '' '' @ [48277, 54620] @ asc '' '' @
     [50724, 47000, 46108] @ asc '' '' @ [54788, 51088, 51032] @ asc '' '' @
     [47568, 53804, 47484] @ asc '' '' @ [50433, 45768, 45796] @ asc ''. '' @ [39] @
     asc ''~'' @ [54616, 45348, 39] @ asc '', '' @ [39] @ asc ''~'' @ [51068, 49464, 39] @
     asc '', '' @ [39] @ asc ''~'' @ [54616, 44172, 39, 50752] @ asc '' '' @ [44057, 51008] @
     asc '' '' @ [47568, 53804, 51077, 45768, 45796] @ asc ''. '' @ [44536, 47111, 44172] @
     asc '' '' @ [47568, 54616, 51648, 47564] @ asc '', '' @ [45817, 49888, 51008] @
     asc '' '' @ [50836, 51608] @ asc '' '' @ [49884, 45824, 50640] @ asc '' '' @
     [50500, 51452] @ asc '' '' @ [51339, 51008] @ asc '' '' @ [53685, 52272, 51012] @
     asc '' '' @ [51452, 44592, 46020] @ asc '' '' @ [54633, 45768, 45796] @ asc ''. '' @
     [51228, 51088, 51032] @ asc '' '' @ [44256, 48124, 51012] @ asc '' '' @
     [51648, 54812, 47213, 44172] @ asc '' '' @ [54644, 44208, 54644, 51452, 49464, 50836] @
     asc ''.''"

text \<open>\<open>_get_gomin_template\<close>: the worry text between two fences.\<close>

definition get_gomin_template :: "ustr \<Rightarrow> ustr" where
  "get_gomin_template text = gomin_head @ fence @ text @ fence @ gomin_tail"

text \<open>A passage without its original text, as \<open>_load_random_noneo\<close> keeps it.\<close>

record passage =
  section_id :: json
  number :: json
  body :: json

definition render_passage :: "env \<Rightarrow> passage \<Rightarrow> ustr" where
  "render_passage E p =
     py_format E (section_id p) @ asc ''-'' @ py_format E (number p) @ asc '': '' @
     py_format E (body p)"

text \<open>\<open>_get_advice_template\<close>: the list of rendered passages inside the literal text.\<close>

definition get_advice_template :: "env \<Rightarrow> passage list \<Rightarrow> ustr" where
  "get_advice_template E noneo =
     advice_head @ py_repr E (map (render_passage E) noneo) @ advice_tail"

text \<open>\<open>_create_context_message\<close>.\<close>

definition create_context_message :: "env \<Rightarrow> json \<Rightarrow> exn + ustr" where
  "create_context_message E gomin_response =
     bindE (subscript2 gomin_response step3 key_summary) (\<lambda>summary.
     bindE (subscript2 gomin_response step4 key_lacking) (\<lambda>lacking.
     bindE (subscript2 gomin_response step4 key_concept) (\<lambda>sub.
     bindE (subscript2 gomin_response step4 key_reason) (\<lambda>reason.
       Inr (context_lit1 @ py_format E summary @ context_lit2 @ py_format E lacking @
            context_lit3 @ py_format E sub @ context_lit4 @ py_format E reason @
            context_lit5)))))"

section \<open>The passages offered to the model\<close>

text \<open>\<open>for item in v\<close>: the elements of a list, the keys of a \<open>dict\<close>, the characters of a string.\<close>

fun iterate :: "json \<Rightarrow> exn + json list" where
  "iterate (JArr xs) = Inr xs"
| "iterate (JObj kvs) = Inr (map (\<lambda>kv. JStr (fst kv)) kvs)"
| "iterate (JStr s) = Inr (map (\<lambda>c. JStr [c]) s)"
| "iterate v = Inl TypeError"

definition simplify_item :: "json \<Rightarrow> exn + passage" where
  "simplify_item item =
     bindE (subscript item key_section) (\<lambda>a.
     bindE (subscript item key_number) (\<lambda>b.
     bindE (subscript item key_text) (\<lambda>c.
       Inr \<lparr>section_id = a, number = b, body = c\<rparr>)))"

fun simplify :: "json list \<Rightarrow> exn + passage list" where
  "simplify [] = Inr []"
| "simplify (item # rest) =
     bindE (simplify_item item) (\<lambda>p. bindE (simplify rest) (\<lambda>ps. Inr (p # ps)))"

text \<open>Lines 145 to 155: the corpus without the original texts.\<close>

definition load_corpus :: "env \<Rightarrow> exn + passage list" where
  "load_corpus E =
     bindE (noneo_file E) (\<lambda>data.
     bindE (subscript data (asc ''data'')) (\<lambda>d.
     bindE (iterate d) simplify))"

text \<open>
  \<open>random.sample(population, k)\<close>: an error when \<open>k\<close> is negative or larger than the
  population, and otherwise the elements at the positions drawn.
\<close>

definition random_sample :: "env \<Rightarrow> 'a list \<Rightarrow> int \<Rightarrow> exn + 'a list" where
  "random_sample E population k =
     (if k < 0 \<or> int (length population) < k
      then Inl (ValueError (asc ''Sample larger than population or is negative''))
      else Inr (map (\<lambda>i. population ! i) (rng_sample E (length population) (nat k))))"

text \<open>\<open>_load_random_noneo\<close>.\<close>

definition load_random_noneo :: "env \<Rightarrow> int \<Rightarrow> exn + passage list" where
  "load_random_noneo E count = bindE (load_corpus E) (\<lambda>simplified_data. random_sample E simplified_data count)"

text \<open>
  What the library promises of the positions drawn: as many as asked, without
  repetition, all within the population.
\<close>

definition draws_without_replacement :: "nat \<Rightarrow> nat \<Rightarrow> nat list \<Rightarrow> bool" where
  "draws_without_replacement n k idx \<longleftrightarrow>
     length idx = k \<and> distinct idx \<and> (\<forall>i\<in>set idx. i < n)"

section \<open>The two stages\<close>

text \<open>
  \<open>_call_gpt\<close>: the request is made and recorded; the service answers or raises.
\<close>

definition call_gpt :: "env \<Rightarrow> request \<Rightarrow> world \<Rightarrow> world \<times> (exn + (response \<times> pyfloat))" where
  "call_gpt E messages w =
     (w\<lparr>calls := calls w @ [messages]\<rparr>, call_model E (length (calls w)) messages)"

text \<open>
  The last two lines of \<open>process_gomin\<close> and of \<open>generate_advice\<close>: call the model,
  extract the record from its reply, and return it with the measured time.
\<close>

definition ask :: "env \<Rightarrow> request \<Rightarrow> world \<Rightarrow> world \<times> (exn + (json \<times> pyfloat))" where
  "ask E messages w =
     (case call_gpt E messages w of
        (w1, Inl e) \<Rightarrow> (w1, Inl e)
      | (w1, Inr (resp, exec_time)) \<Rightarrow>
          (case parse_response (json_loads E) resp of
             (out, Inl e) \<Rightarrow> (w1\<lparr>console := console w1 @ out\<rparr>, Inl e)
           | (out, Inr v) \<Rightarrow> (w1\<lparr>console := console w1 @ out\<rparr>, Inr (v, exec_time))))"

text \<open>\<open>process_gomin\<close>: the three messages of the first request, and the request.\<close>

definition classify_request :: "env \<Rightarrow> ustr \<Rightarrow> request" where
  "classify_request E text_gomin =
     [(asc ''system'', JStr system_content),
      (asc ''assistant'', JStr (introduction E)),
      (asc ''user'', JStr (get_gomin_template text_gomin))]"

definition process_gomin :: "env \<Rightarrow> ustr \<Rightarrow> world \<Rightarrow> world \<times> (exn + (json \<times> pyfloat))" where
  "process_gomin E text_gomin w = ask E (classify_request E text_gomin) w"

text \<open>
  \<open>generate_advice\<close>, with the default count of 20 passages. The sample is drawn and
  the record of the first stage is read before the model is called.
\<close>

definition generate_advice :: "env \<Rightarrow> json \<Rightarrow> world \<Rightarrow> world \<times> (exn + (json \<times> pyfloat))" where
  "generate_advice E gomin_response w =
     (case load_random_noneo E 20 of
        Inl e \<Rightarrow> (w, Inl e)
      | Inr noneo \<Rightarrow>
          (case subscript gomin_response step1 of
             Inl e \<Rightarrow> (w, Inl e)
           | Inr worry \<Rightarrow>
               (case create_context_message E gomin_response of
                  Inl e \<Rightarrow> (w, Inl e)
                | Inr context_message \<Rightarrow>
                    ask E
                      [(asc ''system'', JStr system_content),
                       (asc ''assistant'', JStr (introduction E)),
                       (asc ''user'', worry),
                       (asc ''assistant'', JStr context_message),
                       (asc ''user'', JStr (get_advice_template E noneo))] w)))"

section \<open>The log\<close>

text \<open>
  The argument of \<open>save_to_csv\<close>: \<open>source\<close> and \<open>email\<close> are read with a default,
  the other keys are always there.
\<close>

record save_data =
  data_source :: "ustr option"
  data_email :: "ustr option"
  gomin_result :: json
  advice_result :: json
  time1 :: pyfloat
  time2 :: pyfloat

definition fieldnames :: "ustr list" where
  "fieldnames =
     [asc ''timestamp'', asc ''source'', asc ''email'', asc ''original_concern'',
      asc ''concern_summary'', asc ''lacking_aspect'', asc ''concept'', asc ''concept_reason'',
      asc ''selected_quote'', asc ''quote_reason'', asc ''advice'', asc ''analysis_time'',
      asc ''advice_time'']"

text \<open>Lines 18 to 32 of utils.py: the row, its values read in the order of the source.\<close>

definition row_data :: "env \<Rightarrow> save_data \<Rightarrow> exn + log_row" where
  "row_data E d =
     bindE (subscript (gomin_result d) step1) (\<lambda>c1.
     bindE (subscript2 (gomin_result d) step3 key_summary) (\<lambda>c2.
     bindE (subscript2 (gomin_result d) step4 key_lacking) (\<lambda>c3.
     bindE (subscript2 (gomin_result d) step4 key_concept) (\<lambda>c4.
     bindE (subscript2 (gomin_result d) step4 key_reason) (\<lambda>c5.
     bindE (subscript (advice_result d) step2) (\<lambda>a2.
     bindE (subscript (advice_result d) step3) (\<lambda>a3.
     bindE (subscript (advice_result d) step4) (\<lambda>a4.
       Inr \<lparr>timestamp = now_stamp E,
            source = (case data_source d of None \<Rightarrow> asc ''console'' | Some s \<Rightarrow> s),
            email = (case data_email d of None \<Rightarrow> [] | Some s \<Rightarrow> s),
            original_concern = c1, concern_summary = c2, lacking_aspect = c3, concept = c4,
            concept_reason = c5, selected_quote = a2, quote_reason = a3, advice = a4,
            analysis_time = time1 d, advice_time = time2 d\<rparr>))))))))"

text \<open>Line 15: the name of the log file of the month.\<close>

definition log_name :: "env \<Rightarrow> ustr \<Rightarrow> ustr" where
  "log_name E directory = directory @ asc ''/counseling_log_'' @ now_month E @ asc ''.csv''"

text \<open>
  Lines 34 to 38: \<open>csv.DictWriter\<close> writes the values of the row in the order of the
  field names. It writes \<open>None\<close> as the empty string, a string as it is, and any other
  value as \<open>str(value)\<close>.
\<close>

definition csv_cell :: "env \<Rightarrow> json \<Rightarrow> ustr" where
  "csv_cell E v = (case v of JNull \<Rightarrow> [] | JStr s \<Rightarrow> s | _ \<Rightarrow> py_format E v)"

definition csv_cells :: "env \<Rightarrow> log_row \<Rightarrow> ustr list" where
  "csv_cells E r =
     [timestamp r, source r, email r,
      csv_cell E (original_concern r), csv_cell E (concern_summary r),
      csv_cell E (lacking_aspect r), csv_cell E (concept r), csv_cell E (concept_reason r),
      csv_cell E (selected_quote r), csv_cell E (quote_reason r), csv_cell E (advice r),
      py_format E (JFloat (analysis_time r)), py_format E (JFloat (advice_time r))]"

text \<open>
  \<open>save_to_csv\<close>: the cells of the row are appended to the file of the month, after the
  header when the file did not exist.
\<close>

definition save_to_csv :: "env \<Rightarrow> save_data \<Rightarrow> ustr \<Rightarrow> world \<Rightarrow> world \<times> (exn + unit)" where
  "save_to_csv E d directory w =
     (let filename = log_name E directory
      in case row_data E d of
           Inl e \<Rightarrow> (w, Inl e)
         | Inr row \<Rightarrow>
             (w\<lparr>files := (files w)(filename \<mapsto>
                  (case files w filename of
                     None \<Rightarrow> [Header fieldnames, Row (csv_cells E row)]
                   | Some old \<Rightarrow> old @ [Row (csv_cells E row)]))\<rparr>,
              Inr ()))"

section \<open>The pipeline\<close>

text \<open>
  \<open>process_and_save_concern\<close>. The result is \<open>None\<close> when the first record says the
  text is no worry, and the advice record otherwise. The lines it prints read values
  that \<open>save_to_csv\<close> has read before, and are left out.
\<close>

definition process_and_save_concern ::
    "env \<Rightarrow> ustr \<Rightarrow> ustr \<Rightarrow> ustr \<Rightarrow> world \<Rightarrow> world \<times> (exn + json option)" where
  "process_and_save_concern E concern addr src w =
     (case process_gomin E concern w of
        (w1, Inl e) \<Rightarrow> (w1, Inl e)
      | (w1, Inr (gomin, t1)) \<Rightarrow>
          (case subscript gomin step2 of
             Inl e \<Rightarrow> (w1, Inl e)
           | Inr is_worry \<Rightarrow>
               if \<not> truthy is_worry then (w1, Inr None)
               else
                 (case generate_advice E gomin w1 of
                    (w2, Inl e) \<Rightarrow> (w2, Inl e)
                  | (w2, Inr (adv, t2)) \<Rightarrow>
                      (case save_to_csv E
                              \<lparr>data_source = Some src, data_email = Some addr,
                               gomin_result = gomin, advice_result = adv,
                               time1 = t1, time2 = t2\<rparr>
                              (asc ''txtfiles'') w2 of
                         (w3, Inl e) \<Rightarrow> (w3, Inl e)
                       | (w3, Inr u) \<Rightarrow> (w3, Inr (Some adv))))))"

section \<open>Mail\<close>

text \<open>
  A fragment of a header as \<open>decode_header\<close> returns it: bytes with an optional
  charset, or text.
\<close>

datatype fragment = FBytes "nat list" "ustr option" | FStr ustr

fun decode_fragments :: "env \<Rightarrow> fragment list \<Rightarrow> ustr \<Rightarrow> exn + ustr" where
  "decode_fragments E [] decoded_subject = Inr decoded_subject"
| "decode_fragments E (FBytes b enc # fs) decoded_subject =
     bindE (bytes_decode E
              (case enc of None \<Rightarrow> asc ''utf-8'' | Some e \<Rightarrow> if e = [] then asc ''utf-8'' else e) b)
       (\<lambda>s. decode_fragments E fs (decoded_subject @ s))"
| "decode_fragments E (FStr s # fs) decoded_subject = decode_fragments E fs (decoded_subject @ s)"

text \<open>\<open>decode_subject\<close>, given what \<open>decode_header\<close> made of the header.\<close>

definition decode_subject :: "env \<Rightarrow> exn + fragment list \<Rightarrow> exn + ustr" where
  "decode_subject E header = bindE header (\<lambda>fs. decode_fragments E fs [])"

text \<open>
  A part of a message: its content type, its \<open>Content-Disposition\<close> as text, and its
  decoded payload or the error of decoding it. A message: the sender's address as
  \<open>parseaddr\<close> gives it, the subject as \<open>decode_header\<close> gives it, whether it is
  multipart, the parts \<open>walk\<close> visits, and the message itself as a part.
\<close>

record mail_part =
  content_type :: ustr
  disposition :: ustr
  payload :: "exn + ustr"

record inbound =
  sender :: "exn + ustr"
  subject_header :: "exn + fragment list"
  is_multipart :: bool
  walk :: "mail_part list"
  own :: mail_part

definition is_text_type :: "ustr \<Rightarrow> bool" where
  "is_text_type t \<longleftrightarrow> t = asc ''text/plain'' \<or> t = asc ''text/html''"

fun first_text_part :: "mail_part list \<Rightarrow> exn + ustr" where
  "first_text_part [] = Inr []"
| "first_text_part (p # ps) =
     (if \<not> str_in (asc ''attachment'') (disposition p) \<and> is_text_type (content_type p)
      then payload p else first_text_part ps)"

text \<open>\<open>get_email_body\<close>.\<close>

definition get_email_body :: "inbound \<Rightarrow> exn + ustr" where
  "get_email_body msg =
     (if is_multipart msg then first_text_part (walk msg)
      else if is_text_type (content_type (own msg)) then payload (own msg)
      else Inr [])"

text \<open>
  \<open>send_auto_reply\<close>: the template is rendered, and the mail counts as sent when the
  SMTP dialogue succeeds; its failure is caught and printed.
\<close>

definition send_auto_reply ::
    "env \<Rightarrow> ustr \<Rightarrow> ustr \<Rightarrow> json \<Rightarrow> ustr \<Rightarrow> world \<Rightarrow> world \<times> (exn + unit)" where
  "send_auto_reply E to_email original_subject custom_message original_content w =
     (case render_mail E original_content custom_message of
        Inl e \<Rightarrow> (w, Inl e)
      | Inr html_content \<Rightarrow>
          (let m = \<lparr>to_addr = to_email, subject_line = asc ''Re: '' @ original_subject,
                    html = html_content\<rparr>
           in if smtp_deliver E m then (w\<lparr>outbox := outbox w @ [m]\<rparr>, Inr ())
              else (w, Inr ())))"

text \<open>\<open>str.lower\<close>, character by character, each in its context.\<close>

fun lower_from :: "env \<Rightarrow> ustr \<Rightarrow> ustr \<Rightarrow> ustr" where
  "lower_from E before [] = []"
| "lower_from E before (c # cs) = lower_char E before c cs @ lower_from E (before @ [c]) cs"

definition py_lower :: "env \<Rightarrow> ustr \<Rightarrow> ustr" where
  "py_lower E s = lower_from E [] s"

text \<open>The two words looked for in the subject: U+ACE0 U+BBFC and U+C0C1 U+B2F4.\<close>

definition trigger_worry :: ustr where "trigger_worry = [44256, 48124]"
definition trigger_counsel :: ustr where "trigger_counsel = [49345, 45812]"

text \<open>\<open>process_single_email\<close>.\<close>

definition process_single_email :: "env \<Rightarrow> inbound \<Rightarrow> world \<Rightarrow> world \<times> (exn + unit)" where
  "process_single_email E msg w =
     (case sender msg of
        Inl e \<Rightarrow> (w, Inl e)
      | Inr from_email \<Rightarrow>
          (case decode_subject E (subject_header msg) of
             Inl e \<Rightarrow> (w, Inl e)
           | Inr subject \<Rightarrow>
               if str_in trigger_worry (py_lower E subject) \<or>
                  str_in trigger_counsel (py_lower E subject)
               then
                 (case get_email_body msg of
                    Inl e \<Rightarrow> (w, Inl e)
                  | Inr email_body \<Rightarrow>
                      (case process_and_save_concern E email_body from_email (asc ''email'') w of
                         (w1, Inl e) \<Rightarrow> (w1, Inl e)
                       | (w1, Inr None) \<Rightarrow> (w1, Inr ())
                       | (w1, Inr (Some adv)) \<Rightarrow>
                           if truthy adv then
                             (case subscript adv step4 of
                                Inl e \<Rightarrow> (w1, Inl e)
                              | Inr message_text \<Rightarrow>
                                  send_auto_reply E from_email subject message_text email_body w1)
                           else (w1, Inr ())))
               else (w, Inr ())))"

text \<open>
  Hangul syllables have no case: \<open>str.lower\<close> leaves each of them alone, and puts for
  any other character at least one character, none of them a Hangul syllable.
\<close>

definition is_hangul :: "nat \<Rightarrow> bool" where
  "is_hangul c \<longleftrightarrow> 44032 \<le> c \<and> c \<le> 55203"

definition lower_keeps_hangul :: "env \<Rightarrow> bool" where
  "lower_keeps_hangul E \<longleftrightarrow>
     (\<forall>before c after.
        (is_hangul c \<longrightarrow> lower_char E before c after = [c]) \<and>
        (\<not> is_hangul c \<longrightarrow>
           lower_char E before c after \<noteq> [] \<and>
           (\<forall>d\<in>set (lower_char E before c after). \<not> is_hangul d)))"

section \<open>Concrete collaborators for evaluation\<close>

text \<open>
  An environment in which the model always answers that the text is no worry, the
  corpus has three passages, the sampler draws the first positions, lowering changes the
  ASCII capitals only, and \<open>str\<close> is as in Python on strings, \<open>None\<close>, the truth values
  and the floats 1.0 and 2.0 (other values are outside what it formats).
\<close>

definition sample_passage :: "string \<Rightarrow> json" where
  "sample_passage t =
     JObj [(key_section, JStr (asc ''A'')), (key_number, JStr (asc t)), (key_text, JStr (asc ''x''))]"

definition sample_env :: env where
  "sample_env =
     \<lparr>call_model = (\<lambda>n msgs.
         Inr (reply (asc ''{\"STEP-1\": \"hi\", \"STEP-2\": false}''), Finite False 1 0)),
      json_loads = sample_loads,
      noneo_file = Inr (JObj [(asc ''data'',
         JArr [sample_passage ''1'', sample_passage ''2'', sample_passage ''3''])]),
      rng_sample = (\<lambda>n k. [0..<k]),
      py_format = (\<lambda>v.
         if v = JFloat (Finite False 1 0) then asc ''1.0''
         else if v = JFloat (Finite False 2 0) then asc ''2.0''
         else (case v of
                 JStr s \<Rightarrow> s
               | JNull \<Rightarrow> asc ''None''
               | JBool b \<Rightarrow> (if b then asc ''True'' else asc ''False'')
               | _ \<Rightarrow> [])),
      py_repr = concat,
      now_month = asc ''202401'',
      now_stamp = asc ''2024-01-01 00:00:00'',
      introduction = [],
      bytes_decode = (\<lambda>enc b. Inr b),
      lower_char = (\<lambda>before c after. if 65 \<le> c \<and> c \<le> 90 then [c + 32] else [c]),
      render_mail = (\<lambda>original advice_text. Inr original),
      smtp_deliver = (\<lambda>m. True)\<rparr>"

definition empty_world :: world where
  "empty_world = \<lparr>calls = [], console = [], files = (\<lambda>name. None), outbox = []\<rparr>"

text \<open>
  A record of the first stage and records of the second stage with a given \<open>STEP-1\<close>
  and a given \<open>STEP-4\<close>.
\<close>

definition sample_gomin :: json where
  "sample_gomin =
     JObj [(step1, JStr (asc ''w'')), (step2, JBool True),
           (step3, JObj [(key_summary, JStr (asc ''s''))]),
           (step4, JObj [(key_lacking, JStr (asc ''l'')), (key_concept, JStr (asc ''c'')),
                         (key_reason, JStr (asc ''r''))])]"

definition sample_advice :: "string \<Rightarrow> json \<Rightarrow> json" where
  "sample_advice restated counsel =
     JObj [(step1, JStr (asc restated)), (step2, JStr (asc ''A-1: x'')),
           (step3, JStr (asc ''q'')), (step4, counsel)]"

definition sample_data :: "string \<Rightarrow> json \<Rightarrow> save_data" where
  "sample_data restated counsel =
     \<lparr>data_source = Some (asc ''console''), data_email = Some [],
      gomin_result = sample_gomin, advice_result = sample_advice restated counsel,
      time1 = Finite False 1 0, time2 = Finite False 2 0\<rparr>"

text \<open>The three passages of the sample corpus, as \<open>load_corpus\<close> returns them.\<close>

definition sample_corpus :: "passage list" where
  "sample_corpus =
     map (\<lambda>t. \<lparr>section_id = JStr (asc ''A''), number = JStr (asc t), body = JStr (asc ''x'')\<rparr>)
       [''1'', ''2'', ''3'']"

text \<open>A plain-text mail with the given subject.\<close>

definition sample_mail :: "ustr \<Rightarrow> inbound" where
  "sample_mail subject =
     \<lparr>sender = Inr (asc ''a@b.c''), subject_header = Inr [FStr subject],
      is_multipart = False, walk = [],
      own = \<lparr>content_type = asc ''text/plain'', disposition = asc ''None'',
             payload = Inr (asc ''hi'')\<rparr>\<rparr>"

section \<open>Facts about the string operations\<close>

declare split_acc.simps [simp del]

lemma strip_with_id:
  assumes "s \<noteq> [] \<Longrightarrow> \<not> P (hd s) \<and> \<not> P (last s)"
  shows "strip_with P s = s"
proof (cases "s = []")
  case True
  then show ?thesis by (simp add: strip_with_def)
next
  case False
  with assms have h: "\<not> P (hd s)" and l: "\<not> P (last s)" by auto
  from h have d: "dropWhile P s = s" by (simp add: dropWhile_eq_self_iff)
  from False l have "dropWhile P (rev s) = rev s"
    by (simp add: dropWhile_eq_self_iff hd_rev)
  with d show ?thesis by (simp add: strip_with_def)
qed

lemma strip_with_pad:
  assumes a: "\<forall>c\<in>set a. P c" and b: "\<forall>c\<in>set b. P c"
  shows "strip_with P (a @ s @ b) = strip_with P s"
proof (cases "\<forall>c\<in>set s. P c")
  case True
  with a b have 1: "dropWhile P (a @ s @ b) = []" by (simp add: dropWhile_eq_Nil_conv ball_Un)
  from True have 2: "dropWhile P s = []" by (simp add: dropWhile_eq_Nil_conv)
  show ?thesis unfolding strip_with_def 1 2 by simp
next
  case False
  then obtain x where x: "x \<in> set s" "\<not> P x" by blast
  have 1: "dropWhile P (a @ s @ b) = dropWhile P s @ b"
    using a x by (auto simp: dropWhile_append)
  have "dropWhile P (rev b @ rev (dropWhile P s)) = dropWhile P (rev (dropWhile P s))"
    using b by (simp add: dropWhile_append)
  with 1 show ?thesis by (simp add: strip_with_def)
qed

lemma strip_with_wrapped:
  assumes "\<forall>c\<in>set a. P c" "\<forall>c\<in>set b. P c" "s \<noteq> [] \<Longrightarrow> \<not> P (hd s) \<and> \<not> P (last s)"
  shows "strip_with P (a @ s @ b) = s"
  using assms strip_with_pad [of a P b s] strip_with_id [of s P] by simp

lemma startswith_append [simp]: "startswith (p @ s) p"
  by (simp add: startswith_def)

lemma endswith_append [simp]: "endswith (s @ p) p"
  by (simp add: endswith_def)

lemma startswith_hd: "p \<noteq> [] \<Longrightarrow> startswith s p \<Longrightarrow> s \<noteq> [] \<and> hd s = hd p"
  by (cases p; cases s) (auto simp: startswith_def)

lemma startswith_single: "startswith (c # cs) [x] \<longleftrightarrow> c = x"
  by (simp add: startswith_def)

lemma find_at_skip:
  "c \<notin> set a \<Longrightarrow> find_at (a @ c # b) [c] i = i + int (length a)"
  by (induction a arbitrary: i) (simp_all add: startswith_single)

lemma find_at_none: "c \<notin> set s \<Longrightarrow> find_at s [c] i = - 1"
  by (induction s arbitrary: i) (simp_all add: startswith_single)

lemma find_at_found: "c \<in> set s \<Longrightarrow> 0 \<le> i \<Longrightarrow> 0 \<le> find_at s [c] i"
proof (induction s arbitrary: i)
  case Nil
  then show ?case by simp
next
  case (Cons a s)
  show ?case
  proof (cases "a = c")
    case True
    then show ?thesis using Cons.prems by (simp add: startswith_single)
  next
    case False
    with Cons.prems have "c \<in> set s" by simp
    from Cons.IH [OF this, of "i + 1"] Cons.prems(2) False show ?thesis
      by (simp add: startswith_single)
  qed
qed

lemma str_find_nl_none: "str_find s nl = - 1 \<longleftrightarrow> 10 \<notin> set s"
proof
  assume a: "str_find s nl = - 1"
  show "10 \<notin> set s"
  proof
    assume "10 \<in> set s"
    from find_at_found [OF this, of 0] a show False by (simp add: str_find_def nl_def)
  qed
next
  assume "10 \<notin> set s"
  from find_at_none [OF this, of 0] show "str_find s nl = - 1" by (simp add: str_find_def nl_def)
qed

lemma split_acc_absent:
  "\<not> str_in sep s \<Longrightarrow> split_acc sep acc s = [rev acc @ s]"
proof (induction s arbitrary: acc)
  case Nil
  then show ?case by (simp add: split_acc.simps)
next
  case (Cons c cs)
  then show ?case by (subst split_acc.simps) simp
qed

lemma split_acc_here:
  "sep \<noteq> [] \<Longrightarrow> split_acc sep acc (sep @ rest) = rev acc # split_acc sep [] rest"
  by (subst split_acc.simps) simp

lemma split_acc_nonempty: "split_acc sep acc s \<noteq> []"
proof (induction sep acc s rule: split_acc.induct)
  case (1 sep acc s)
  then show ?case by (subst split_acc.simps) simp
qed

lemma split_acc_two:
  "sep \<noteq> [] \<Longrightarrow> str_in sep s \<Longrightarrow> 2 \<le> length (split_acc sep acc s)"
proof (induction s arbitrary: acc)
  case Nil
  then show ?case by simp
next
  case (Cons c cs)
  show ?case
  proof (cases "startswith (c # cs) sep")
    case True
    have "split_acc sep acc (c # cs) = rev acc # split_acc sep [] (drop (length sep) (c # cs))"
      using True Cons.prems(1) by (subst split_acc.simps) simp
    moreover have "1 \<le> length (split_acc sep [] (drop (length sep) (c # cs)))"
      using split_acc_nonempty [of sep "[]" "drop (length sep) (c # cs)"]
      by (cases "split_acc sep [] (drop (length sep) (c # cs))") simp_all
    ultimately show ?thesis by simp
  next
    case False
    then have "split_acc sep acc (c # cs) = split_acc sep (c # acc) cs"
      by (subst split_acc.simps) simp
    with False Cons show ?thesis by simp
  qed
qed

lemma str_in_prefix: "p \<noteq> [] \<Longrightarrow> str_in p (p @ s)"
  by (cases p) (auto simp: startswith_def)

lemma marker_nonempty: "marker \<noteq> []"
  by (simp add: marker_def)

lemma marker_pass_total: "\<exists>t. marker_pass c = Inr t"
  using split_acc_two [OF marker_nonempty, of c "[]"]
  by (auto simp: marker_pass_def split_str_def marker_nonempty index_def)

lemma clean_text_total: "\<exists>t. clean_text c = Inr t"
  using marker_pass_total [of c] by (auto simp: clean_text_def)

lemma marker_pass_absent: "\<not> str_in marker c \<Longrightarrow> marker_pass c = Inr (strip c)"
  by (simp add: marker_pass_def)

lemma marker_pass_once:
  "\<not> str_in marker rest \<Longrightarrow> marker_pass (marker @ rest) = Inr (strip rest)"
proof -
  assume a: "\<not> str_in marker rest"
  have "str_in marker (marker @ rest)"
    using marker_nonempty by (rule str_in_prefix)
  moreover have "split_acc marker [] (marker @ rest) = [[], rest]"
    using split_acc_here [OF marker_nonempty, of "[]" rest] split_acc_absent [OF a, of "[]"] by simp
  ultimately show ?thesis
    by (simp add: marker_pass_def split_str_def marker_nonempty index_def)
qed


lemma fence_eq: "fence = [96, 96, 96]"
  by (simp add: fence_def asc_def)

lemma colon_space_nl: "asc '': '' @ nl = [58, 32, 10]"
  by (simp add: asc_def nl_def)

lemma strip_chars_subset: "c \<in> set (asc '': '' @ nl) \<Longrightarrow> strippable c"
  unfolding colon_space_nl by (auto simp: strippable_def is_space_def)

lemma strip_id: "(s \<noteq> [] \<Longrightarrow> \<not> is_space (hd s) \<and> \<not> is_space (last s)) \<Longrightarrow> strip s = s"
  unfolding strip_def by (rule strip_with_id)

lemma strip_chars_id:
  assumes "s \<noteq> [] \<Longrightarrow> \<not> strippable (hd s) \<and> \<not> strippable (last s)"
  shows "strip_chars (asc '': '' @ nl) s = s"
  unfolding strip_chars_def
proof (rule strip_with_id)
  assume "s \<noteq> []"
  with assms strip_chars_subset show "hd s \<notin> set (asc '': '' @ nl) \<and> last s \<notin> set (asc '': '' @ nl)"
    by blast
qed

lemma startswith_extend: "startswith s p \<Longrightarrow> startswith (s @ b) p"
proof -
  assume a: "startswith s p"
  then have "length p \<le> length s"
    unfolding startswith_def by (metis length_take min.absorb_iff2 min.commute)
  with a show ?thesis by (simp add: startswith_def)
qed

lemma str_in_empty: "str_in [] s"
  by (cases s) (simp_all add: startswith_def)

lemma str_in_extend: "str_in p s \<Longrightarrow> str_in p (s @ b)"
proof (induction s)
  case Nil
  then show ?case by (simp add: str_in_empty)
next
  case (Cons c cs)
  then show ?case using startswith_extend [of "c # cs" p b] by auto
qed

lemma str_in_prepend: "str_in p s \<Longrightarrow> str_in p (a @ s)"
  by (induction a) simp_all

lemma str_in_append: "str_in p s \<Longrightarrow> str_in p (a @ s @ b)"
  by (simp add: str_in_extend str_in_prepend)

lemma not_space_chars: "\<not> is_space 96" "\<not> is_space 123" "\<not> is_space 125" "is_space 10"
  by (simp_all add: is_space_def)

lemma strip_wrapped:
  assumes "\<forall>c\<in>set a. is_space c" "\<forall>c\<in>set b. is_space c"
    and "s \<noteq> [] \<Longrightarrow> \<not> is_space (hd s) \<and> \<not> is_space (last s)"
  shows "strip (a @ s @ b) = s"
  unfolding strip_def using assms by (rule strip_with_wrapped)

lemma str_find_first_nl:
  "10 \<notin> set a \<Longrightarrow> str_find (a @ nl @ b) nl = int (length a)"
  using find_at_skip [of 10 a b 0] by (simp add: str_find_def nl_def)

lemma fence_pass_block:
  assumes tag: "10 \<notin> set tag"
    and sp2: "\<forall>c\<in>set sp2. is_space c" and sp3: "\<forall>c\<in>set sp3. is_space c"
    and obj: "json_object_text J"
  shows "fence_pass (fence @ tag @ nl @ sp2 @ J @ sp3 @ fence) = J"
proof -
  let ?block = "fence @ tag @ nl @ sp2 @ J @ sp3 @ fence"
  from obj have J: "J \<noteq> []" "hd J = 123" "last J = 125"
    by (simp_all add: json_object_text_def)
  have "10 \<notin> set (fence @ tag)" using tag by (simp add: fence_eq)
  from str_find_first_nl [OF this, of "sp2 @ J @ sp3 @ fence"]
  have f: "str_find ?block nl = int (length (fence @ tag))" by simp
  have d: "drop (length (fence @ tag)) ?block = nl @ sp2 @ J @ sp3 @ fence"
    by simp
  have "strip ((nl @ sp2) @ (J @ sp3 @ fence) @ []) = J @ sp3 @ fence"
  proof (rule strip_wrapped)
    show "\<forall>c\<in>set (nl @ sp2). is_space c" using sp2 by (simp add: nl_def not_space_chars)
    show "\<forall>c\<in>set []. is_space c" by simp
    show "\<not> is_space (hd (J @ sp3 @ fence)) \<and> \<not> is_space (last (J @ sp3 @ fence))"
      using J by (simp add: fence_eq not_space_chars)
  qed
  then have t1: "strip (drop (length (fence @ tag)) ?block) = J @ sp3 @ fence"
    using d by simp
  have e: "endswith (J @ sp3 @ fence) fence"
    using endswith_append [of "J @ sp3" fence] by simp
  have k: "take (length (J @ sp3 @ fence) - 3) (J @ sp3 @ fence) = J @ sp3"
    by (simp add: fence_eq)
  have "strip ([] @ J @ sp3) = J"
  proof (rule strip_wrapped)
    show "\<forall>c\<in>set []. is_space c" by simp
    show "\<forall>c\<in>set sp3. is_space c" by (rule sp3)
    show "\<not> is_space (hd J) \<and> \<not> is_space (last J)" using J by (simp add: not_space_chars)
  qed
  then have t2: "strip (J @ sp3) = J" by simp
  have s: "startswith ?block fence" by (rule startswith_append)
  show ?thesis
    unfolding fence_pass_def Let_def f
    using s t1 e k t2 by simp
qed


lemma passes_id:
  assumes "\<not> str_in marker t" and "\<not> startswith t fence"
    and "t \<noteq> [] \<longrightarrow> \<not> strippable (hd t) \<and> \<not> strippable (last t)"
  shows "marker_pass t = Inr t" "fence_pass t = t" "strip_chars (asc '': '' @ nl) t = t"
proof -
  from assms(3) have sp: "t \<noteq> [] \<Longrightarrow> \<not> is_space (hd t) \<and> \<not> is_space (last t)"
    by (simp add: strippable_def)
  show "marker_pass t = Inr t"
    using assms(1) strip_id [OF sp] by (simp add: marker_pass_absent)
  show "fence_pass t = t"
    using assms(2) by (simp add: fence_pass_def)
  show "strip_chars (asc '': '' @ nl) t = t"
    using assms(3) by (intro strip_chars_id) simp
qed

lemma clean_text_id:
  assumes "\<not> str_in marker t" and "\<not> startswith t fence"
    and "t \<noteq> [] \<longrightarrow> \<not> strippable (hd t) \<and> \<not> strippable (last t)"
  shows "clean_text t = Inr t"
  using passes_id [OF assms] by (simp add: clean_text_def)

lemma json_object_clean:
  assumes "json_object_text J" "\<not> str_in marker J"
  shows "clean_text J = Inr J"
proof (rule clean_text_id)
  from assms(1) have J: "J \<noteq> []" "hd J = 123" "last J = 125"
    by (simp_all add: json_object_text_def)
  show "\<not> str_in marker J" by (rule assms(2))
  show "\<not> startswith J fence"
    using startswith_hd [of fence J] J by (auto simp: fence_eq)
  show "J \<noteq> [] \<longrightarrow> \<not> strippable (hd J) \<and> \<not> strippable (last J)"
    using J by (simp add: strippable_def is_space_def)
qed

lemma clean_text_wrapped:
  assumes m: "m = [] \<or> m = marker"
    and ws: "\<forall>c\<in>set (sp1 @ sp2 @ sp3 @ sp4). is_space c"
    and tag: "10 \<notin> set tag"
    and obj: "json_object_text J"
    and once: "\<not> str_in marker (sp1 @ (fence @ tag @ nl @ sp2 @ J @ sp3 @ fence) @ sp4)"
  shows "clean_text (m @ sp1 @ (fence @ tag @ nl @ sp2 @ J @ sp3 @ fence) @ sp4) = Inr J"
proof -
  let ?block = "fence @ tag @ nl @ sp2 @ J @ sp3 @ fence"
  from obj have J: "J \<noteq> []" "hd J = 123" "last J = 125"
    by (simp_all add: json_object_text_def)
  have a: "marker_pass (m @ sp1 @ ?block @ sp4) = Inr (strip (sp1 @ ?block @ sp4))"
    using m marker_pass_absent [OF once] marker_pass_once [OF once] by auto
  have b: "strip (sp1 @ ?block @ sp4) = ?block"
  proof (rule strip_wrapped)
    show "\<forall>c\<in>set sp1. is_space c" "\<forall>c\<in>set sp4. is_space c" using ws by auto
    show "\<not> is_space (hd ?block) \<and> \<not> is_space (last ?block)"
      by (simp add: fence_eq not_space_chars)
  qed
  have c: "fence_pass ?block = J"
    using ws by (intro fence_pass_block tag obj) auto
  have d: "strip_chars (asc '': '' @ nl) J = J"
    using J by (intro strip_chars_id) (simp add: strippable_def is_space_def)
  show ?thesis
    by (simp only: clean_text_def a b c d sum.case)
qed

lemma parse_response_reply:
  "clean_text c = Inr t \<Longrightarrow>
   parse_response loads (reply c) =
     (case loads t of
        Inr v \<Rightarrow> ([OriginalContent (Some c)], Inr v)
      | Inl e \<Rightarrow>
          (OriginalContent (Some c) # decode_diagnostics e t @
             [ParseFailure e, OriginalResponse (Some c)],
           Inl (Chained (ValueError json_fail_msg) e)))"
  by (simp add: parse_response_def reply_def)

lemma strip_with_keep:
  assumes "p \<noteq> []" "\<forall>c\<in>set p. \<not> P c"
  shows "strip_with P (p @ r) = p @ rev (dropWhile P (rev r))"
proof -
  from assms have h: "\<not> P (hd (p @ r))" by (cases p) auto
  then have 1: "dropWhile P (p @ r) = p @ r" by (simp add: dropWhile_eq_self_iff)
  from assms have l: "\<not> P (hd (rev p))" by (simp add: hd_rev)
  have "dropWhile P (rev r @ rev p) = dropWhile P (rev r) @ rev p"
  proof (cases "\<forall>x\<in>set (rev r). P x")
    case True
    then have "dropWhile P (rev r) = []" by (simp add: dropWhile_eq_Nil_conv)
    moreover have "dropWhile P (rev p) = rev p" using l by (simp add: dropWhile_eq_self_iff)
    ultimately show ?thesis using True by (simp add: dropWhile_append)
  next
    case False
    then show ?thesis by (auto simp: dropWhile_append)
  qed
  with 1 show ?thesis by (simp add: strip_with_def)
qed

lemma fence_pass_no_newline:
  assumes "startswith t fence" "str_find t nl = - 1"
  shows "fence_pass t = (if endswith t fence then strip (take (length t - 3) t) else t)"
  using assms by (simp add: fence_pass_def Let_def)

lemma backtick_kept:
  assumes "s = [] \<or> hd s = 96" "\<not> P 96"
  shows "strip_with P s = [] \<or> hd (strip_with P s) = 96"
proof (cases s)
  case Nil
  then show ?thesis by (simp add: strip_with_def)
next
  case (Cons x xs)
  with assms(1) have x: "x = 96" by simp
  have "strip_with P ([96] @ xs) = [96] @ rev (dropWhile P (rev xs))"
    by (rule strip_with_keep) (simp_all add: assms(2))
  with Cons x show ?thesis by simp
qed

lemma startswith_take:
  assumes "startswith t fence" "6 \<le> length t"
  shows "startswith (take (length t - 3) t) fence"
  using assms by (simp add: startswith_def fence_eq min_def take_take)

lemma startswith_strip:
  assumes "startswith u fence"
  shows "startswith (strip u) fence"
proof -
  from assms have u: "u = fence @ drop 3 u"
    by (metis append_take_drop_id fence_eq length_Cons list.size(3) numeral_3_eq_3 startswith_def)
  have "strip (fence @ drop 3 u) = fence @ rev (dropWhile is_space (rev (drop 3 u)))"
    unfolding strip_def by (rule strip_with_keep) (simp_all add: fence_eq is_space_def)
  with u show ?thesis by (metis startswith_append)
qed


lemma sample_loads_rejects:
  assumes "s = [] \<or> hd s = 96"
  shows "\<exists>e. sample_loads s = Inl e"
proof -
  have 1: "s \<noteq> asc ''{\"a\":1}''" "s \<noteq> asc ''{\"STEP-1\": \"hi\", \"STEP-2\": false}''"
    "s \<noteq> asc ''{\"STEP-1\": \"'' @ marker @ asc ''\"}''" "s \<noteq> asc ''{\"STEP-1\": \"''"
    using assms by (auto simp: asc_def)
  show ?thesis using 1 by (simp add: sample_loads_def)
qed

lemma sample_loads_doc:
  "\<forall>s m d. sample_loads s = Inl (JSONDecodeError m d) \<longrightarrow> d = s"
  by (simp add: sample_loads_def)

lemma fenced_sample_facts:
  "marker_pass (asc ''```{\"a\":1}```'') = Inr (asc ''```{\"a\":1}```'')"
  "startswith (asc ''```{\"a\":1}```'') fence"
  "str_find (asc ''```{\"a\":1}```'') nl = - 1"
  "fence_pass (asc ''```{\"a\":1}```'') = asc ''```{\"a\":1}''"
  by (simp_all add: marker_pass_def fence_pass_def marker_def fence_def asc_def nl_def
      startswith_def endswith_def str_find_def strip_def strip_with_def is_space_def)

lemma repeated_marker_split:
  "split_acc marker []
     (marker @ asc '' : {\"STEP-1\": \"'' @ marker @ asc ''\", \"STEP-2\": false}'') =
   [[], asc '' : {\"STEP-1\": \"'', asc ''\", \"STEP-2\": false}'']"
  by (simp add: split_acc.simps marker_def asc_def startswith_def)

lemma not_json_facts:
  "clean_text (asc ''not json at all'') = Inr (asc ''not json at all'')"
  "clean_text (asc '' not json at all'') = Inr (asc ''not json at all'')"
  "sample_loads (asc ''not json at all'') =
     Inl (JSONDecodeError (asc ''Expecting value: line 1 column 1 (char 0)'') (asc ''not json at all''))"
  by (simp_all add: clean_text_def marker_pass_def fence_pass_def marker_def fence_def asc_def
      nl_def startswith_def strip_def strip_chars_def strip_with_def is_space_def
      sample_loads_def value_start_def)

text \<open>
  A reply made of the marker (or no marker), a fenced block whose first line is the
  language tag, and a closing fence around the text of a JSON object, with white space
  allowed around the parts and the marker occurring nowhere else: the text handed to the
  decoder is the JSON text itself.
\<close>

lemma wrapped_reply_once:
  assumes "m = [] \<or> m = marker"
    and "\<forall>c\<in>set (sp1 @ sp2 @ sp3 @ sp4). is_space c"
    and "10 \<notin> set tag"
    and "json_object_text J"
    and "\<not> str_in marker (sp1 @ (fence @ tag @ nl @ sp2 @ J @ sp3 @ fence) @ sp4)"
  shows "clean_text (m @ sp1 @ (fence @ tag @ nl @ sp2 @ J @ sp3 @ fence) @ sp4) = Inr J"
    and "\<And>v. loads J = Inr v \<Longrightarrow>
            snd (parse_response loads
                  (reply (m @ sp1 @ (fence @ tag @ nl @ sp2 @ J @ sp3 @ fence) @ sp4))) = Inr v"
proof -
  let ?c = "m @ sp1 @ (fence @ tag @ nl @ sp2 @ J @ sp3 @ fence) @ sp4"
  show w: "clean_text ?c = Inr J" using assms by (rule clean_text_wrapped)
  fix v assume "loads J = Inr v"
  with parse_response_reply [OF w, of loads]
  show "snd (parse_response loads (reply ?c)) = Inr v" by simp
qed

text \<open>The reply of the scenario: a \<open>json\<close> fence around \<open>{"a":1}\<close>.\<close>

lemma wrapped_reply_sample:
  "parse_response sample_loads (reply (asc ''```json'' @ nl @ asc ''{\"a\":1}'' @ nl @ asc ''```'')) =
     ([OriginalContent (Some (asc ''```json'' @ nl @ asc ''{\"a\":1}'' @ nl @ asc ''```''))],
      Inr (JObj [(asc ''a'', JInt 1)]))"
proof -
  have 1: "\<forall>c\<in>set ([] @ [] @ nl @ []). is_space c" by (simp add: nl_def is_space_def)
  have 2: "10 \<notin> set (asc ''json'')" by (simp add: asc_def)
  have 3: "json_object_text (asc ''{\"a\":1}'')" by (simp add: json_object_text_def asc_def)
  have 4: "\<not> str_in marker ([] @ (fence @ asc ''json'' @ nl @ [] @ asc ''{\"a\":1}'' @ nl @ fence) @ [])"
    by (simp add: marker_def fence_def asc_def nl_def startswith_def)
  have 5: "sample_loads (asc ''{\"a\":1}'') = Inr (JObj [(asc ''a'', JInt 1)])"
    by (simp add: sample_loads_def)
  have e: "[] @ [] @ (fence @ asc ''json'' @ nl @ [] @ asc ''{\"a\":1}'' @ nl @ fence) @ [] =
        asc ''```json'' @ nl @ asc ''{\"a\":1}'' @ nl @ asc ''```''"
    by (simp add: fence_def asc_def)
  from wrapped_reply_once(1) [of "[]" "[]" "[]" nl "[]" "asc ''json''" "asc ''{\"a\":1}''",
      OF _ 1 2 3 4]
  have "clean_text (asc ''```json'' @ nl @ asc ''{\"a\":1}'' @ nl @ asc ''```'') = Inr (asc ''{\"a\":1}'')"
    unfolding e by simp
  from parse_response_reply [OF this, of sample_loads] 5 show ?thesis by simp
qed

text \<open>
  A fenced block whose JSON object quotes the marker: \<open>split\<close> cuts at both occurrences.
\<close>

lemma quoting_marker_split:
  "split_acc marker []
     (marker @ asc ''```json'' @ nl @ asc ''{\"STEP-1\": \"'' @ marker @ asc ''\"}'' @ nl @
      asc ''```'') =
   [[], asc ''```json'' @ nl @ asc ''{\"STEP-1\": \"'', asc ''\"}'' @ nl @ asc ''```'']"
  by (simp add: split_acc.simps marker_def asc_def nl_def startswith_def)

text \<open>
  A reply with a colon between the marker and the fence: the fence test of line 71 runs
  before the colons are removed at line 82, so the fence stays in the text.
\<close>

lemma colon_before_fence:
  "clean_text (marker @ asc '' : ```json'' @ nl @ asc ''{\"a\":1}'' @ nl @ asc ''```'') =
     Inr (asc ''```json'' @ nl @ asc ''{\"a\":1}'' @ nl @ asc ''```'')"
proof -
  have 1: "str_in marker (marker @ asc '' : ```json'' @ nl @ asc ''{\"a\":1}'' @ nl @ asc ''```'')"
    using marker_nonempty by (rule str_in_prefix)
  have 2: "split_acc marker []
      (marker @ asc '' : ```json'' @ nl @ asc ''{\"a\":1}'' @ nl @ asc ''```'') =
      [[], asc '' : ```json'' @ nl @ asc ''{\"a\":1}'' @ nl @ asc ''```'']"
    by (simp add: split_acc.simps marker_def asc_def nl_def startswith_def)
  have 3: "strip (asc '' : ```json'' @ nl @ asc ''{\"a\":1}'' @ nl @ asc ''```'') =
      asc '': ```json'' @ nl @ asc ''{\"a\":1}'' @ nl @ asc ''```''"
    by (simp add: strip_def strip_with_def asc_def nl_def is_space_def)
  have m: "marker_pass (marker @ asc '' : ```json'' @ nl @ asc ''{\"a\":1}'' @ nl @ asc ''```'') =
      Inr (asc '': ```json'' @ nl @ asc ''{\"a\":1}'' @ nl @ asc ''```'')"
    using 1 3 by (simp add: marker_pass_def split_str_def marker_nonempty index_def 2
        del: str_in.simps)
  have 4: "strip_chars (asc '': '' @ nl)
      (fence_pass (asc '': ```json'' @ nl @ asc ''{\"a\":1}'' @ nl @ asc ''```'')) =
      asc ''```json'' @ nl @ asc ''{\"a\":1}'' @ nl @ asc ''```''"
    by (simp add: fence_pass_def startswith_def fence_def strip_chars_def strip_with_def
        asc_def nl_def)
  from m 4 show ?thesis by (simp add: clean_text_def)
qed

section \<open>Claims about the extraction\<close>

text \<open>
  C1, on a wrapped reply whose JSON object quotes the marker: the marker, the opening
  fence with the tag \<open>json\<close>, the object \<open>{"STEP-1": "M"}\<close> with \<open>M\<close> the marker, and the
  closing fence. The object is the text of a JSON object and decodes to the record with
  the marker under \<open>STEP-1\<close>. \<open>split\<close> cuts at both occurrences of the marker and the
  code takes the piece with index 1, so the text handed to the decoder stops before the
  quoted marker: it is \<open>{"STEP-1": "\<close>, which the decoder rejects, and extraction raises
  instead of returning the record.
\<close>

theorem wrapped_reply_quoting_marker:
  "json_object_text (asc ''{\"STEP-1\": \"'' @ marker @ asc ''\"}'') \<and>
   sample_loads (asc ''{\"STEP-1\": \"'' @ marker @ asc ''\"}'') =
     Inr (JObj [(asc ''STEP-1'', JStr marker)]) \<and>
   clean_text (marker @ asc ''```json'' @ nl @ asc ''{\"STEP-1\": \"'' @ marker @ asc ''\"}'' @ nl @
               asc ''```'') =
     Inr (asc ''{\"STEP-1\": \"'') \<and>
   snd (parse_response sample_loads
         (reply (marker @ asc ''```json'' @ nl @ asc ''{\"STEP-1\": \"'' @ marker @ asc ''\"}'' @
                 nl @ asc ''```''))) =
     Inl (Chained (ValueError json_fail_msg)
           (JSONDecodeError (asc ''Unterminated string starting at: line 1 column 12 (char 11)'')
              (asc ''{\"STEP-1\": \"'')))"
proof -
  let ?c = "marker @ asc ''```json'' @ nl @ asc ''{\"STEP-1\": \"'' @ marker @ asc ''\"}'' @ nl @
            asc ''```''"
  have j: "json_object_text (asc ''{\"STEP-1\": \"'' @ marker @ asc ''\"}'')"
    by (simp add: json_object_text_def asc_def)
  have l: "sample_loads (asc ''{\"STEP-1\": \"'' @ marker @ asc ''\"}'') =
      Inr (JObj [(asc ''STEP-1'', JStr marker)])"
    by (simp add: sample_loads_def asc_def)
  have 1: "str_in marker ?c" using marker_nonempty by (rule str_in_prefix)
  have 2: "strip (asc ''```json'' @ nl @ asc ''{\"STEP-1\": \"'') =
      asc ''```json'' @ nl @ asc ''{\"STEP-1\": \"''"
    by (simp add: strip_def strip_with_def asc_def nl_def is_space_def)
  have m: "marker_pass ?c = Inr (asc ''```json'' @ nl @ asc ''{\"STEP-1\": \"'')"
    using 1 2 by (simp add: marker_pass_def split_str_def marker_nonempty index_def
        quoting_marker_split del: str_in.simps)
  have 3: "strip_chars (asc '': '' @ nl)
      (fence_pass (asc ''```json'' @ nl @ asc ''{\"STEP-1\": \"'')) = asc ''{\"STEP-1\": \"''"
    by (simp add: fence_pass_def startswith_def endswith_def fence_def str_find_def
        strip_def strip_chars_def strip_with_def is_space_def asc_def nl_def Let_def)
  from m 3 have c: "clean_text ?c = Inr (asc ''{\"STEP-1\": \"'')"
    by (simp add: clean_text_def)
  have r: "sample_loads (asc ''{\"STEP-1\": \"'') =
      Inl (JSONDecodeError (asc ''Unterminated string starting at: line 1 column 12 (char 11)'')
             (asc ''{\"STEP-1\": \"''))"
    by (simp add: sample_loads_def asc_def)
  from parse_response_reply [OF c, of sample_loads] r
  have "snd (parse_response sample_loads (reply ?c)) =
      Inl (Chained (ValueError json_fail_msg)
            (JSONDecodeError (asc ''Unterminated string starting at: line 1 column 12 (char 11)'')
               (asc ''{\"STEP-1\": \"'')))"
    by simp
  with j l c show ?thesis by simp
qed

text \<open>
  C7. On a text that has no marker, does not begin with a fence and has no white space
  or colon at either end, each of the three passes (marker, fence, final trim) returns
  the text unchanged, and so does their composition: running the cleaning again on
  clean JSON text is a no-op.
\<close>

theorem clean_json_unchanged:
  assumes "\<not> str_in marker t" and "\<not> startswith t fence"
    and "t \<noteq> [] \<longrightarrow> \<not> strippable (hd t) \<and> \<not> strippable (last t)"
  shows "marker_pass t = Inr t \<and> fence_pass t = t \<and> strip_chars (asc '': '' @ nl) t = t \<and>
         clean_text t = Inr t"
  using passes_id [OF assms] clean_text_id [OF assms] by simp

theorem clean_json_unchanged_witness:
  "marker_pass (asc ''{\"a\":1}'') = Inr (asc ''{\"a\":1}'') \<and>
   fence_pass (asc ''{\"a\":1}'') = asc ''{\"a\":1}'' \<and>
   strip_chars (asc '': '' @ nl) (asc ''{\"a\":1}'') = asc ''{\"a\":1}'' \<and>
   clean_text (asc ''{\"a\":1}'') = Inr (asc ''{\"a\":1}'')"
proof -
  have 1: "\<not> str_in marker (asc ''{\"a\":1}'')"
    by (simp add: marker_def asc_def startswith_def)
  have 2: "\<not> startswith (asc ''{\"a\":1}'') fence"
    by (simp add: fence_def asc_def startswith_def)
  have 3: "asc ''{\"a\":1}'' \<noteq> [] \<longrightarrow>
      \<not> strippable (hd (asc ''{\"a\":1}'')) \<and> \<not> strippable (last (asc ''{\"a\":1}''))"
    by (simp add: asc_def strippable_def is_space_def)
  from clean_json_unchanged [OF 1 2 3] show ?thesis .
qed

text \<open>
  C10, as the code has it. When the text left by the marker pass begins with a fence and
  has no newline, the first line is not dropped, but the closing-fence test still runs:
  the text is unchanged only if it does not end with a fence, and otherwise loses its
  last three characters and is trimmed. The opening backticks stay (for a text of six or
  more characters the result still begins with the fence), so the text handed to the
  decoder is empty or begins with a backtick, and extraction fails with any decoder that
  rejects such texts.
\<close>

theorem fence_without_newline:
  assumes "marker_pass raw = Inr t" and "startswith t fence" and "str_find t nl = - 1"
  shows "(\<not> endswith t fence \<longrightarrow> fence_pass t = t) \<and>
         (endswith t fence \<longrightarrow> fence_pass t = strip (take (length t - 3) t)) \<and>
         (6 \<le> length t \<longrightarrow> startswith (fence_pass t) fence) \<and>
         (\<exists>c. clean_text raw = Inr c \<and> (c = [] \<or> hd c = 96) \<and>
              ((\<forall>s. s = [] \<or> hd s = 96 \<longrightarrow> (\<exists>e. loads s = Inl e)) \<longrightarrow>
               (\<exists>e. snd (parse_response loads (reply raw)) =
                     Inl (Chained (ValueError json_fail_msg) e))))"
proof -
  let ?u = "take (length t - 3) t"
  let ?c = "strip_chars (asc '': '' @ nl) (fence_pass t)"
  have fp: "fence_pass t = (if endswith t fence then strip ?u else t)"
    using assms(2,3) by (rule fence_pass_no_newline)
  from startswith_hd [of fence t] assms(2) have t: "t \<noteq> []" "hd t = 96"
    by (simp_all add: fence_eq)
  have u: "?u = [] \<or> hd ?u = 96"
    using t by (cases "length t - 3") simp_all
  have "strip ?u = [] \<or> hd (strip ?u) = 96"
    unfolding strip_def using u by (rule backtick_kept) (simp add: is_space_def)
  with fp t have f: "fence_pass t = [] \<or> hd (fence_pass t) = 96" by auto
  have c: "?c = [] \<or> hd ?c = 96"
    unfolding strip_chars_def using f by (rule backtick_kept) (simp add: colon_space_nl)
  have k: "6 \<le> length t \<longrightarrow> startswith (fence_pass t) fence"
  proof
    assume "6 \<le> length t"
    with assms(2) have "startswith ?u fence" by (rule startswith_take)
    then have "startswith (strip ?u) fence" by (rule startswith_strip)
    with fp assms(2) show "startswith (fence_pass t) fence" by simp
  qed
  have ct: "clean_text raw = Inr ?c"
    using assms(1) by (simp add: clean_text_def)
  have "(\<forall>s. s = [] \<or> hd s = 96 \<longrightarrow> (\<exists>e. loads s = Inl e)) \<longrightarrow>
        (\<exists>e. snd (parse_response loads (reply raw)) =
              Inl (Chained (ValueError json_fail_msg) e))"
  proof
    assume "\<forall>s. s = [] \<or> hd s = 96 \<longrightarrow> (\<exists>e. loads s = Inl e)"
    with c obtain e where "loads ?c = Inl e" by blast
    with parse_response_reply [OF ct, of loads]
    show "\<exists>e. snd (parse_response loads (reply raw)) =
              Inl (Chained (ValueError json_fail_msg) e)" by simp
  qed
  with fp k ct c show ?thesis by auto
qed

theorem fence_without_newline_witness:
  "fence_pass (asc ''```{\"a\":1}```'') = strip (take (length (asc ''```{\"a\":1}```'') - 3) (asc ''```{\"a\":1}```'')) \<and>
   startswith (fence_pass (asc ''```{\"a\":1}```'')) fence \<and>
   (\<exists>e. snd (parse_response sample_loads (reply (asc ''```{\"a\":1}```''))) =
         Inl (Chained (ValueError json_fail_msg) e))"
proof -
  have e: "endswith (asc ''```{\"a\":1}```'') fence" "6 \<le> length (asc ''```{\"a\":1}```'')"
    by (simp_all add: endswith_def fence_def asc_def)
  from fence_without_newline [OF fenced_sample_facts(1-3), of sample_loads] e sample_loads_rejects
  show ?thesis by blast
qed

theorem fence_without_newline_counterexample:
  "startswith (asc ''```{\"a\":1}```'') fence \<and>
   str_find (asc ''```{\"a\":1}```'') nl = - 1 \<and>
   fence_pass (asc ''```{\"a\":1}```'') = asc ''```{\"a\":1}'' \<and>
   fence_pass (asc ''```{\"a\":1}```'') \<noteq> asc ''```{\"a\":1}```''"
  using fenced_sample_facts by (simp add: asc_def)

text \<open>
  C2, on a reply in which the marker occurs twice: the marker, then a JSON object whose
  first string value quotes the marker. \<open>split\<close> cuts at every occurrence and the code
  takes the piece with index 1, so the text kept ends at the second marker. It is not the
  trimmed remainder of the reply after the first marker.
\<close>

theorem repeated_marker_truncates:
  "marker_pass (marker @ asc '' : {\"STEP-1\": \"'' @ marker @ asc ''\", \"STEP-2\": false}'') =
     Inr (asc '': {\"STEP-1\": \"'') \<and>
   clean_text (marker @ asc '' : {\"STEP-1\": \"'' @ marker @ asc ''\", \"STEP-2\": false}'') =
     Inr (asc ''{\"STEP-1\": \"'') \<and>
   strip (asc '' : {\"STEP-1\": \"'' @ marker @ asc ''\", \"STEP-2\": false}'') \<noteq>
     asc '': {\"STEP-1\": \"''"
proof -
  have 1: "str_in marker (marker @ asc '' : {\"STEP-1\": \"'' @ marker @ asc ''\", \"STEP-2\": false}'')"
    using marker_nonempty by (rule str_in_prefix)
  have 2: "strip (asc '' : {\"STEP-1\": \"'') = asc '': {\"STEP-1\": \"''"
    by (simp add: strip_def strip_with_def asc_def is_space_def)
  have m: "marker_pass (marker @ asc '' : {\"STEP-1\": \"'' @ marker @ asc ''\", \"STEP-2\": false}'') =
     Inr (asc '': {\"STEP-1\": \"'')"
    using 1 2 by (simp add: marker_pass_def split_str_def marker_nonempty index_def
        repeated_marker_split del: str_in.simps)
  have 3: "strip_chars (asc '': '' @ nl) (fence_pass (asc '': {\"STEP-1\": \"'')) = asc ''{\"STEP-1\": \"''"
    by (simp add: fence_pass_def startswith_def fence_def strip_chars_def strip_with_def asc_def nl_def)
  have 4: "strip (asc '' : {\"STEP-1\": \"'' @ marker @ asc ''\", \"STEP-2\": false}'') \<noteq>
     asc '': {\"STEP-1\": \"''"
    by (simp add: strip_def strip_with_def asc_def is_space_def marker_def)
  from m 3 4 show ?thesis by (simp add: clean_text_def)
qed

text \<open>
  C3, as the code has it. \<open>json.loads\<close> puts the text it was given into the
  \<open>JSONDecodeError\<close> it raises; that is the hypothesis. The cleaning always yields a
  text. Whenever the decoder rejects it, extraction prints the error and the original
  reply and raises \<open>ValueError\<close> with a fixed message, whose context is the decoder's
  error. When that error is a \<open>JSONDecodeError\<close>, it holds the text that was tried, and
  extraction prints it and the text that was tried before the other two lines. The raised
  value does not hold the original reply.
\<close>

theorem decode_failure_reported:
  assumes "\<forall>s m d. loads s = Inl (JSONDecodeError m d) \<longrightarrow> d = s"
  shows "\<exists>t. clean_text raw = Inr t \<and>
     (\<forall>e. loads t = Inl e \<longrightarrow>
        parse_response loads (reply raw) =
          (OriginalContent (Some raw) # decode_diagnostics e t @
             [ParseFailure e, OriginalResponse (Some raw)],
           Inl (Chained (ValueError json_fail_msg) e))) \<and>
     (\<forall>m d. loads t = Inl (JSONDecodeError m d) \<longrightarrow>
        d = t \<and>
        parse_response loads (reply raw) =
          ([OriginalContent (Some raw), JsonDecodeFailure (JSONDecodeError m t), AttemptedText t,
            ParseFailure (JSONDecodeError m t), OriginalResponse (Some raw)],
           Inl (Chained (ValueError json_fail_msg) (JSONDecodeError m t))))"
proof -
  from clean_text_total obtain t where t: "clean_text raw = Inr t" by blast
  have a: "\<forall>e. loads t = Inl e \<longrightarrow>
        parse_response loads (reply raw) =
          (OriginalContent (Some raw) # decode_diagnostics e t @
             [ParseFailure e, OriginalResponse (Some raw)],
           Inl (Chained (ValueError json_fail_msg) e))"
    using parse_response_reply [OF t, of loads] by simp
  have b: "\<forall>m d. loads t = Inl (JSONDecodeError m d) \<longrightarrow>
        d = t \<and>
        parse_response loads (reply raw) =
          ([OriginalContent (Some raw), JsonDecodeFailure (JSONDecodeError m t), AttemptedText t,
            ParseFailure (JSONDecodeError m t), OriginalResponse (Some raw)],
           Inl (Chained (ValueError json_fail_msg) (JSONDecodeError m t)))"
  proof (intro allI impI)
    fix m d assume l: "loads t = Inl (JSONDecodeError m d)"
    with assms have d: "d = t" by blast
    with l a show "d = t \<and>
        parse_response loads (reply raw) =
          ([OriginalContent (Some raw), JsonDecodeFailure (JSONDecodeError m t), AttemptedText t,
            ParseFailure (JSONDecodeError m t), OriginalResponse (Some raw)],
           Inl (Chained (ValueError json_fail_msg) (JSONDecodeError m t)))"
      by simp
  qed
  from t a b show ?thesis by blast
qed

theorem decode_failure_reported_witness:
  "parse_response sample_loads (reply (asc ''not json at all'')) =
     ([OriginalContent (Some (asc ''not json at all'')),
       JsonDecodeFailure (JSONDecodeError (asc ''Expecting value: line 1 column 1 (char 0)'')
         (asc ''not json at all'')),
       AttemptedText (asc ''not json at all''),
       ParseFailure (JSONDecodeError (asc ''Expecting value: line 1 column 1 (char 0)'')
         (asc ''not json at all'')),
       OriginalResponse (Some (asc ''not json at all''))],
      Inl (Chained (ValueError json_fail_msg)
        (JSONDecodeError (asc ''Expecting value: line 1 column 1 (char 0)'')
          (asc ''not json at all''))))"
proof -
  from decode_failure_reported [OF sample_loads_doc, of "asc ''not json at all''"]
  obtain t where t: "clean_text (asc ''not json at all'') = Inr t"
    and r: "\<And>m d. sample_loads t = Inl (JSONDecodeError m d) \<Longrightarrow>
        parse_response sample_loads (reply (asc ''not json at all'')) =
          ([OriginalContent (Some (asc ''not json at all'')), JsonDecodeFailure (JSONDecodeError m t),
            AttemptedText t, ParseFailure (JSONDecodeError m t),
            OriginalResponse (Some (asc ''not json at all''))],
           Inl (Chained (ValueError json_fail_msg) (JSONDecodeError m t)))"
    by blast
  from t not_json_facts(1) have "t = asc ''not json at all''" by simp
  with r not_json_facts(3) show ?thesis by simp
qed

theorem decode_failure_reported_counterexample:
  "snd (parse_response sample_loads (reply (asc ''not json at all''))) =
   snd (parse_response sample_loads (reply (asc '' not json at all''))) \<and>
   asc ''not json at all'' \<noteq> asc '' not json at all''"
  using parse_response_reply [OF not_json_facts(1), of sample_loads]
    parse_response_reply [OF not_json_facts(2), of sample_loads] not_json_facts(3)
  by (simp add: asc_def)

section \<open>Facts about the pipeline\<close>

lemma call_gpt_effect:
  "call_gpt E messages w = (w1, r) \<Longrightarrow>
   calls w1 = calls w @ [messages] \<and> files w1 = files w \<and> outbox w1 = outbox w \<and>
   r = call_model E (length (calls w)) messages"
  by (auto simp: call_gpt_def)

lemma ask_effect:
  assumes "ask E messages w = (w1, r)"
  shows "calls w1 = calls w @ [messages] \<and> files w1 = files w \<and> outbox w1 = outbox w"
proof -
  obtain w0 r0 where c: "call_gpt E messages w = (w0, r0)" by (cases "call_gpt E messages w")
  from call_gpt_effect [OF c]
  have 0: "calls w0 = calls w @ [messages]" "files w0 = files w" "outbox w0 = outbox w" by simp_all
  show ?thesis
  proof (cases r0)
    case (Inl e)
    with assms c have "w1 = w0" by (simp add: ask_def)
    with 0 show ?thesis by simp
  next
    case (Inr p)
    obtain resp t where p: "p = (resp, t)" by (cases p)
    obtain out v where q: "parse_response (json_loads E) resp = (out, v)"
      by (cases "parse_response (json_loads E) resp")
    from assms c Inr p q have "w1 = w0\<lparr>console := console w0 @ out\<rparr>"
      by (cases v) (simp_all add: ask_def)
    with 0 show ?thesis by simp
  qed
qed

lemma process_gomin_effect:
  assumes "process_gomin E concern w = (w1, r)"
  shows "calls w1 = calls w @ [classify_request E concern] \<and> files w1 = files w \<and>
         outbox w1 = outbox w"
  using ask_effect [of E "classify_request E concern" w w1 r] assms
  by (simp add: process_gomin_def)

lemma sample_reply_clean:
  "clean_text (asc ''{\"STEP-1\": \"hi\", \"STEP-2\": false}'') =
     Inr (asc ''{\"STEP-1\": \"hi\", \"STEP-2\": false}'')"
proof (rule clean_text_id)
  show "\<not> str_in marker (asc ''{\"STEP-1\": \"hi\", \"STEP-2\": false}'')"
    by (simp add: marker_def asc_def startswith_def)
  show "\<not> startswith (asc ''{\"STEP-1\": \"hi\", \"STEP-2\": false}'') fence"
    by (simp add: fence_def asc_def startswith_def)
  show "asc ''{\"STEP-1\": \"hi\", \"STEP-2\": false}'' \<noteq> [] \<longrightarrow>
      \<not> strippable (hd (asc ''{\"STEP-1\": \"hi\", \"STEP-2\": false}'')) \<and>
      \<not> strippable (last (asc ''{\"STEP-1\": \"hi\", \"STEP-2\": false}''))"
    by (simp add: asc_def strippable_def is_space_def)
qed

lemma sample_classification:
  "process_gomin sample_env concern empty_world =
     (\<lparr>calls = [classify_request sample_env concern],
       console = [OriginalContent (Some (asc ''{\"STEP-1\": \"hi\", \"STEP-2\": false}''))],
       files = (\<lambda>name. None), outbox = []\<rparr>,
      Inr (JObj [(asc ''STEP-1'', JStr (asc ''hi'')), (asc ''STEP-2'', JBool False)],
           Finite False 1 0))"
proof -
  have l: "sample_loads (asc ''{\"STEP-1\": \"hi\", \"STEP-2\": false}'') =
      Inr (JObj [(asc ''STEP-1'', JStr (asc ''hi'')), (asc ''STEP-2'', JBool False)])"
    by (simp add: sample_loads_def asc_def)
  have j: "json_loads sample_env = sample_loads"
    by (simp add: sample_env_def)
  have c: "call_model sample_env 0 (classify_request sample_env concern) =
      Inr (reply (asc ''{\"STEP-1\": \"hi\", \"STEP-2\": false}''), Finite False 1 0)"
    by (simp add: sample_env_def)
  show ?thesis
    using parse_response_reply [OF sample_reply_clean, of sample_loads] l
    by (simp add: process_gomin_def ask_def call_gpt_def empty_world_def j c)
qed

lemma random_sample_ok:
  assumes "0 \<le> k" "k \<le> int (length pop)"
  shows "random_sample E pop k = Inr (map (\<lambda>i. pop ! i) (rng_sample E (length pop) (nat k)))"
  using assms by (simp add: random_sample_def)

lemma random_sample_short:
  assumes "int (length pop) < k"
  shows "random_sample E pop k = Inl (ValueError (asc ''Sample larger than population or is negative''))"
  using assms by (simp add: random_sample_def)

lemma sample_corpus_loaded: "load_corpus sample_env = Inr sample_corpus"
  by (simp add: load_corpus_def sample_env_def bindE_def sample_passage_def simplify_item_def
      sample_corpus_def key_section_def key_number_def key_text_def asc_def)

lemma first_positions_drawn:
  "\<forall>n k. k \<le> n \<longrightarrow> draws_without_replacement n k (rng_sample sample_env n k)"
  by (simp add: draws_without_replacement_def sample_env_def)

lemma bindE_Inr: "bindE m f = Inr y \<Longrightarrow> \<exists>x. m = Inr x \<and> f x = Inr y"
  by (cases m) (simp_all add: bindE_def)

lemma row_data_fields:
  assumes "row_data E d = Inr row"
  shows "subscript (gomin_result d) step1 = Inr (original_concern row)"
    and "subscript2 (gomin_result d) step3 key_summary = Inr (concern_summary row)"
    and "subscript2 (gomin_result d) step4 key_lacking = Inr (lacking_aspect row)"
    and "subscript2 (gomin_result d) step4 key_concept = Inr (concept row)"
    and "subscript2 (gomin_result d) step4 key_reason = Inr (concept_reason row)"
    and "subscript (advice_result d) step2 = Inr (selected_quote row)"
    and "subscript (advice_result d) step3 = Inr (quote_reason row)"
    and "subscript (advice_result d) step4 = Inr (advice row)"
    and "analysis_time row = time1 d" and "advice_time row = time2 d"
    and "timestamp row = now_stamp E"
    and "source row = (case data_source d of None \<Rightarrow> asc ''console'' | Some s \<Rightarrow> s)"
    and "email row = (case data_email d of None \<Rightarrow> [] | Some s \<Rightarrow> s)"
proof -
  from assms obtain c1 where 1: "subscript (gomin_result d) step1 = Inr c1"
    and r1: "bindE (subscript2 (gomin_result d) step3 key_summary) (\<lambda>c2.
     bindE (subscript2 (gomin_result d) step4 key_lacking) (\<lambda>c3.
     bindE (subscript2 (gomin_result d) step4 key_concept) (\<lambda>c4.
     bindE (subscript2 (gomin_result d) step4 key_reason) (\<lambda>c5.
     bindE (subscript (advice_result d) step2) (\<lambda>a2.
     bindE (subscript (advice_result d) step3) (\<lambda>a3.
     bindE (subscript (advice_result d) step4) (\<lambda>a4.
       Inr \<lparr>timestamp = now_stamp E,
            source = (case data_source d of None \<Rightarrow> asc ''console'' | Some s \<Rightarrow> s),
            email = (case data_email d of None \<Rightarrow> [] | Some s \<Rightarrow> s),
            original_concern = c1, concern_summary = c2, lacking_aspect = c3, concept = c4,
            concept_reason = c5, selected_quote = a2, quote_reason = a3, advice = a4,
            analysis_time = time1 d, advice_time = time2 d\<rparr>))))))) = Inr row"
    unfolding row_data_def by (blast dest: bindE_Inr)
  from r1 obtain c2 c3 c4 c5 a2 a3 a4 where
    2: "subscript2 (gomin_result d) step3 key_summary = Inr c2" and
    3: "subscript2 (gomin_result d) step4 key_lacking = Inr c3" and
    4: "subscript2 (gomin_result d) step4 key_concept = Inr c4" and
    5: "subscript2 (gomin_result d) step4 key_reason = Inr c5" and
    6: "subscript (advice_result d) step2 = Inr a2" and
    7: "subscript (advice_result d) step3 = Inr a3" and
    8: "subscript (advice_result d) step4 = Inr a4" and
    row: "row = \<lparr>timestamp = now_stamp E,
            source = (case data_source d of None \<Rightarrow> asc ''console'' | Some s \<Rightarrow> s),
            email = (case data_email d of None \<Rightarrow> [] | Some s \<Rightarrow> s),
            original_concern = c1, concern_summary = c2, lacking_aspect = c3, concept = c4,
            concept_reason = c5, selected_quote = a2, quote_reason = a3, advice = a4,
            analysis_time = time1 d, advice_time = time2 d\<rparr>"
    by (auto simp: bindE_def split: sum.splits)
  from 1 2 3 4 5 6 7 8 row
  show "subscript (gomin_result d) step1 = Inr (original_concern row)"
    and "subscript2 (gomin_result d) step3 key_summary = Inr (concern_summary row)"
    and "subscript2 (gomin_result d) step4 key_lacking = Inr (lacking_aspect row)"
    and "subscript2 (gomin_result d) step4 key_concept = Inr (concept row)"
    and "subscript2 (gomin_result d) step4 key_reason = Inr (concept_reason row)"
    and "subscript (advice_result d) step2 = Inr (selected_quote row)"
    and "subscript (advice_result d) step3 = Inr (quote_reason row)"
    and "subscript (advice_result d) step4 = Inr (advice row)"
    and "analysis_time row = time1 d" and "advice_time row = time2 d"
    and "timestamp row = now_stamp E"
    and "source row = (case data_source d of None \<Rightarrow> asc ''console'' | Some s \<Rightarrow> s)"
    and "email row = (case data_email d of None \<Rightarrow> [] | Some s \<Rightarrow> s)"
    by simp_all
qed


lemma save_to_csv_Inr:
  assumes "save_to_csv E d directory w = (w', Inr u)"
  shows "\<exists>row. row_data E d = Inr row \<and>
           files w' (log_name E directory) =
             Some ((case files w (log_name E directory) of
                      None \<Rightarrow> [Header fieldnames] | Some old \<Rightarrow> old) @
                   [Row (csv_cells E row)])"
proof (cases "row_data E d")
  case (Inl e)
  with assms show ?thesis by (simp add: save_to_csv_def)
next
  case (Inr row)
  with assms show ?thesis
    by (auto simp: save_to_csv_def Let_def split: option.splits)
qed

lemma sample_row:
  "row_data sample_env (sample_data restated counsel) =
     Inr \<lparr>timestamp = asc ''2024-01-01 00:00:00'', source = asc ''console'', email = [],
          original_concern = JStr (asc ''w''), concern_summary = JStr (asc ''s''),
          lacking_aspect = JStr (asc ''l''), concept = JStr (asc ''c''),
          concept_reason = JStr (asc ''r''), selected_quote = JStr (asc ''A-1: x''),
          quote_reason = JStr (asc ''q''), advice = counsel,
          analysis_time = Finite False 1 0, advice_time = Finite False 2 0\<rparr>"
  by (simp add: row_data_def bindE_def subscript2_def sample_data_def sample_gomin_def
      sample_advice_def sample_env_def step1_def step2_def step3_def step4_def key_summary_def
      key_lacking_def key_concept_def key_reason_def asc_def)

section \<open>Facts about lowering and the subject test\<close>

lemma startswith_Nil [simp]: "startswith s []"
  by (simp add: startswith_def)

lemma startswith_Cons: "startswith (c # cs) (x # xs) \<longleftrightarrow> c = x \<and> startswith cs xs"
  by (simp add: startswith_def)

lemma startswith_Nil_Cons: "\<not> startswith [] (x # xs)"
  by (simp add: startswith_def)

lemma lower_startswith:
  assumes "lower_keeps_hangul E" and "\<forall>c\<in>set t. is_hangul c"
  shows "startswith (lower_from E b s) t \<longleftrightarrow> startswith s t"
  using assms(2)
proof (induction s arbitrary: t b)
  case Nil
  then show ?case by simp
next
  case (Cons c cs)
  show ?case
  proof (cases t)
    case Nil
    then show ?thesis by simp
  next
    case t: (Cons x xs)
    with Cons.prems have x: "is_hangul x" and xs: "\<forall>c\<in>set xs. is_hangul c" by simp_all
    show ?thesis
    proof (cases "is_hangul c")
      case True
      with assms(1) have "lower_char E b c cs = [c]" by (simp add: lower_keeps_hangul_def)
      with Cons.IH [OF xs, of "b @ [c]"] t show ?thesis by (simp add: startswith_Cons)
    next
      case False
      with assms(1) obtain d ds where w: "lower_char E b c cs = d # ds" and "\<not> is_hangul d"
        unfolding lower_keeps_hangul_def
        by (metis list.exhaust list.set_intros(1))
      with x have "d \<noteq> x" by auto
      moreover from False x have "c \<noteq> x" by auto
      ultimately show ?thesis using t w by (simp add: startswith_Cons)
    qed
  qed
qed

lemma str_in_skip:
  assumes "\<forall>d\<in>set ws. \<not> is_hangul d" and "is_hangul x"
  shows "str_in (x # xs) (ws @ rest) \<longleftrightarrow> str_in (x # xs) rest"
  using assms(1)
proof (induction ws)
  case Nil
  then show ?case by simp
next
  case (Cons d ds)
  with assms(2) have "d \<noteq> x" by auto
  with Cons show ?case by (simp add: startswith_Cons)
qed

lemma lower_str_in:
  assumes "lower_keeps_hangul E" and "\<forall>c\<in>set (x # xs). is_hangul c"
  shows "str_in (x # xs) (lower_from E b s) \<longleftrightarrow> str_in (x # xs) s"
proof (induction s arbitrary: b)
  case Nil
  then show ?case by simp
next
  case (Cons c cs)
  from assms(2) have x: "is_hangul x" by simp
  show ?case
  proof (cases "is_hangul c")
    case True
    with assms(1) have w: "lower_char E b c cs = [c]" by (simp add: lower_keeps_hangul_def)
    have "startswith (lower_from E b (c # cs)) (x # xs) \<longleftrightarrow> startswith (c # cs) (x # xs)"
      using assms by (rule lower_startswith)
    with w Cons.IH [of "b @ [c]"] show ?thesis by simp
  next
    case False
    with assms(1) have w: "\<forall>d\<in>set (lower_char E b c cs). \<not> is_hangul d"
      by (simp add: lower_keeps_hangul_def)
    from False x have "c \<noteq> x" by auto
    then have "str_in (x # xs) (c # cs) \<longleftrightarrow> str_in (x # xs) cs"
      by (simp add: startswith_Cons)
    with str_in_skip [OF w x, of xs "lower_from E (b @ [c]) cs"] Cons.IH [of "b @ [c]"]
    show ?thesis by simp
  qed
qed

lemma trigger_test:
  assumes "lower_keeps_hangul E"
  shows "(str_in trigger_worry (py_lower E s) \<or> str_in trigger_counsel (py_lower E s)) \<longleftrightarrow>
         (str_in trigger_worry s \<or> str_in trigger_counsel s)"
proof -
  have "str_in [44256, 48124] (lower_from E [] s) \<longleftrightarrow> str_in [44256, 48124] s"
    using assms by (rule lower_str_in) (simp add: is_hangul_def)
  moreover have "str_in [49345, 45812] (lower_from E [] s) \<longleftrightarrow> str_in [49345, 45812] s"
    using assms by (rule lower_str_in) (simp add: is_hangul_def)
  ultimately show ?thesis by (simp add: py_lower_def trigger_worry_def trigger_counsel_def)
qed


lemma no_trigger_no_effect:
  assumes "lower_keeps_hangul E"
    and "decode_subject E (subject_header msg) = Inr subject"
    and "\<not> str_in trigger_worry subject" and "\<not> str_in trigger_counsel subject"
  shows "fst (process_single_email E msg w) = w"
    and "sender msg = Inr a \<Longrightarrow> process_single_email E msg w = (w, Inr ())"
  using assms(2-4) trigger_test [OF assms(1), of subject]
  by (simp_all add: process_single_email_def split: sum.splits)

lemma sample_lower: "lower_keeps_hangul sample_env"
  by (auto simp: lower_keeps_hangul_def sample_env_def is_hangul_def)

lemma sample_trigger_mail:
  "process_single_email sample_env (sample_mail trigger_worry) empty_world =
     (\<lparr>calls = [classify_request sample_env (asc ''hi'')],
       console = [OriginalContent (Some (asc ''{\"STEP-1\": \"hi\", \"STEP-2\": false}''))],
       files = (\<lambda>name. None), outbox = []\<rparr>,
      Inr ())"
proof -
  have 1: "decode_subject sample_env (subject_header (sample_mail trigger_worry)) = Inr trigger_worry"
    by (simp add: sample_mail_def decode_subject_def bindE_def)
  have 2: "str_in trigger_worry (py_lower sample_env trigger_worry)"
    by (simp add: py_lower_def trigger_worry_def sample_env_def startswith_def)
  have 3: "get_email_body (sample_mail trigger_worry) = Inr (asc ''hi'')"
    by (simp add: get_email_body_def sample_mail_def is_text_type_def)
  have 4: "subscript (JObj [(asc ''STEP-1'', JStr (asc ''hi'')), (asc ''STEP-2'', JBool False)]) step2 =
      Inr (JBool False)"
    by (simp add: step2_def asc_def)
  have 5: "process_and_save_concern sample_env (asc ''hi'') (asc ''a@b.c'') (asc ''email'') empty_world =
     (\<lparr>calls = [classify_request sample_env (asc ''hi'')],
       console = [OriginalContent (Some (asc ''{\"STEP-1\": \"hi\", \"STEP-2\": false}''))],
       files = (\<lambda>name. None), outbox = []\<rparr>,
      Inr None)"
    using 4 by (simp add: process_and_save_concern_def sample_classification)
  have 6: "sender (sample_mail trigger_worry) = Inr (asc ''a@b.c'')"
    by (simp add: sample_mail_def)
  show ?thesis
    by (simp add: process_single_email_def 1 2 3 5 6)
qed

section \<open>Claims about the prompts and the pipeline\<close>

text \<open>
  C8. The classification prompt is a function of the worry text alone: a fixed text, a
  fence, the worry text as it is, a fence, and a fixed text. Its length is the length of
  the worry text plus a constant, and two prompts are equal exactly when the worry
  texts are.
\<close>

theorem classification_prompt_embeds_text:
  "get_gomin_template text = gomin_head @ fence @ text @ fence @ gomin_tail \<and>
   length (get_gomin_template text) = length gomin_head + length text + length gomin_tail + 6 \<and>
   (get_gomin_template a = get_gomin_template b \<longleftrightarrow> a = b)"
  by (simp add: get_gomin_template_def fence_eq)

text \<open>
  C4. When the record of the first stage has a falsy \<open>STEP-2\<close>, the pipeline returns
  \<open>None\<close> in the state the first stage left: the only request made is the
  classification request, no log file is touched and no mail is sent.
\<close>

theorem not_a_worry_stops:
  assumes "process_gomin E concern w = (w1, Inr (gomin, t1))"
    and "subscript gomin step2 = Inr v" and "\<not> truthy v"
  shows "process_and_save_concern E concern addr src w = (w1, Inr None) \<and>
         calls w1 = calls w @ [classify_request E concern] \<and>
         files w1 = files w \<and> outbox w1 = outbox w"
  using assms process_gomin_effect [OF assms(1)]
  by (simp add: process_and_save_concern_def)


theorem not_a_worry_stops_witness:
  "process_and_save_concern sample_env (asc ''hello'') [] (asc ''console'') empty_world =
     (\<lparr>calls = [classify_request sample_env (asc ''hello'')],
       console = [OriginalContent (Some (asc ''{\"STEP-1\": \"hi\", \"STEP-2\": false}''))],
       files = (\<lambda>name. None), outbox = []\<rparr>,
      Inr None)"
proof -
  have s: "subscript (JObj [(asc ''STEP-1'', JStr (asc ''hi'')), (asc ''STEP-2'', JBool False)]) step2 =
      Inr (JBool False)"
    by (simp add: step2_def asc_def)
  have t: "\<not> truthy (JBool False)" by simp
  from not_a_worry_stops [OF sample_classification [of "asc ''hello''"] s t,
      where addr = "[]" and src = "asc ''console''"]
  show ?thesis by (simp add: empty_world_def)
qed

text \<open>
  C5. Let the corpus load, and let the sampler keep the library's promise (as many
  positions as asked, without repetition, inside the population). For a count between 0
  and the size of the corpus, \<open>_load_random_noneo\<close> returns the passages at the drawn
  positions, and the advice prompt is the fixed text around the list of exactly
  \<open>count\<close> rendered passages, each the section, a hyphen, the number, a colon and a
  space, and the text. For a count above the size of the corpus it raises the
  \<open>ValueError\<close> of \<open>random.sample\<close>; with fewer than 20 passages the advice stage
  raises it before any request is made.
\<close>

theorem advice_prompt_sample:
  assumes "load_corpus E = Inr corpus"
    and "\<forall>n k. k \<le> n \<longrightarrow> draws_without_replacement n k (rng_sample E n k)"
  shows "(0 \<le> count \<and> count \<le> int (length corpus) \<longrightarrow>
           (\<exists>idx. draws_without_replacement (length corpus) (nat count) idx \<and>
              load_random_noneo E count = Inr (map (\<lambda>i. corpus ! i) idx) \<and>
              get_advice_template E (map (\<lambda>i. corpus ! i) idx) =
                advice_head @ py_repr E (map (\<lambda>i. render_passage E (corpus ! i)) idx) @ advice_tail \<and>
              length (map (\<lambda>i. render_passage E (corpus ! i)) idx) = nat count \<and>
              (\<forall>i\<in>set idx.
                 render_passage E (corpus ! i) =
                   py_format E (section_id (corpus ! i)) @ asc ''-'' @
                   py_format E (number (corpus ! i)) @ asc '': '' @
                   py_format E (body (corpus ! i))))) \<and>
         (int (length corpus) < count \<longrightarrow>
            load_random_noneo E count =
              Inl (ValueError (asc ''Sample larger than population or is negative''))) \<and>
         (length corpus < 20 \<longrightarrow>
            generate_advice E gomin w =
              (w, Inl (ValueError (asc ''Sample larger than population or is negative''))))"
proof (intro conjI impI)
  assume c: "0 \<le> count \<and> count \<le> int (length corpus)"
  let ?idx = "rng_sample E (length corpus) (nat count)"
  from c have "nat count \<le> length corpus" by arith
  with assms(2) have d: "draws_without_replacement (length corpus) (nat count) ?idx" by blast
  have l: "load_random_noneo E count = Inr (map (\<lambda>i. corpus ! i) ?idx)"
    using c assms(1) by (simp add: load_random_noneo_def bindE_def random_sample_ok)
  have t: "get_advice_template E (map (\<lambda>i. corpus ! i) ?idx) =
      advice_head @ py_repr E (map (\<lambda>i. render_passage E (corpus ! i)) ?idx) @ advice_tail"
    by (simp add: get_advice_template_def comp_def)
  have n: "length (map (\<lambda>i. render_passage E (corpus ! i)) ?idx) = nat count"
    using d by (simp add: draws_without_replacement_def)
  from d l t n
  show "\<exists>idx. draws_without_replacement (length corpus) (nat count) idx \<and>
      load_random_noneo E count = Inr (map (\<lambda>i. corpus ! i) idx) \<and>
      get_advice_template E (map (\<lambda>i. corpus ! i) idx) =
        advice_head @ py_repr E (map (\<lambda>i. render_passage E (corpus ! i)) idx) @ advice_tail \<and>
      length (map (\<lambda>i. render_passage E (corpus ! i)) idx) = nat count \<and>
      (\<forall>i\<in>set idx.
         render_passage E (corpus ! i) =
           py_format E (section_id (corpus ! i)) @ asc ''-'' @
           py_format E (number (corpus ! i)) @ asc '': '' @
           py_format E (body (corpus ! i)))"
    by (intro exI [of _ ?idx]) (simp add: render_passage_def)
next
  assume "int (length corpus) < count"
  then show "load_random_noneo E count =
      Inl (ValueError (asc ''Sample larger than population or is negative''))"
    using assms(1) by (simp add: load_random_noneo_def bindE_def random_sample_short)
next
  assume "length corpus < 20"
  then have "load_random_noneo E 20 =
      Inl (ValueError (asc ''Sample larger than population or is negative''))"
    using assms(1) by (simp add: load_random_noneo_def bindE_def random_sample_short)
  then show "generate_advice E gomin w =
      (w, Inl (ValueError (asc ''Sample larger than population or is negative'')))"
    by (simp add: generate_advice_def)
qed


theorem advice_prompt_sample_witness:
  "(\<exists>idx. draws_without_replacement 3 2 idx \<and>
      load_random_noneo sample_env 2 = Inr (map (\<lambda>i. sample_corpus ! i) idx) \<and>
      length (map (\<lambda>i. render_passage sample_env (sample_corpus ! i)) idx) = 2) \<and>
   load_random_noneo sample_env 4 =
     Inl (ValueError (asc ''Sample larger than population or is negative'')) \<and>
   generate_advice sample_env sample_gomin empty_world =
     (empty_world, Inl (ValueError (asc ''Sample larger than population or is negative'')))"
proof -
  have n: "length sample_corpus = 3" by (simp add: sample_corpus_def)
  from advice_prompt_sample [OF sample_corpus_loaded first_positions_drawn, of 2 sample_gomin empty_world]
    advice_prompt_sample [OF sample_corpus_loaded first_positions_drawn, of 4 sample_gomin empty_world]
  show ?thesis unfolding n by auto
qed

text \<open>
  C6, as the code has it. When \<open>save_to_csv\<close> succeeds, one row is appended to the log
  file of the month (after the header when the file is new). Its thirteen cells are the
  time stamp, the source, the address, then \<open>STEP-1\<close>, the summary of \<open>STEP-3\<close> and the
  three entries of \<open>STEP-4\<close> of the first record, then \<open>STEP-2\<close>, \<open>STEP-3\<close> and \<open>STEP-4\<close>
  of the advice record, then the two times, each value as \<open>csv.DictWriter\<close> writes it:
  a string as it is, \<open>None\<close> as the empty string, any other value as \<open>str(value)\<close>. So a
  field that is a string is saved unchanged, and a field that is not a string is saved
  as a text from which it cannot always be told. \<open>STEP-2\<close> of the first record and
  \<open>STEP-1\<close> of the advice record are not columns.
\<close>

theorem log_row_fields:
  assumes "save_to_csv E d directory w = (w', Inr u)"
  shows "(\<exists>c1 c2 c3 c4 c5 a2 a3 a4.
            subscript (gomin_result d) step1 = Inr c1 \<and>
            subscript2 (gomin_result d) step3 key_summary = Inr c2 \<and>
            subscript2 (gomin_result d) step4 key_lacking = Inr c3 \<and>
            subscript2 (gomin_result d) step4 key_concept = Inr c4 \<and>
            subscript2 (gomin_result d) step4 key_reason = Inr c5 \<and>
            subscript (advice_result d) step2 = Inr a2 \<and>
            subscript (advice_result d) step3 = Inr a3 \<and>
            subscript (advice_result d) step4 = Inr a4 \<and>
            files w' (log_name E directory) =
              Some ((case files w (log_name E directory) of
                       None \<Rightarrow> [Header fieldnames] | Some old \<Rightarrow> old) @
                    [Row [now_stamp E,
                          (case data_source d of None \<Rightarrow> asc ''console'' | Some s \<Rightarrow> s),
                          (case data_email d of None \<Rightarrow> [] | Some s \<Rightarrow> s),
                          csv_cell E c1, csv_cell E c2, csv_cell E c3, csv_cell E c4,
                          csv_cell E c5, csv_cell E a2, csv_cell E a3, csv_cell E a4,
                          py_format E (JFloat (time1 d)), py_format E (JFloat (time2 d))]])) \<and>
         (\<forall>s. csv_cell E (JStr s) = s) \<and>
         csv_cell E JNull = [] \<and>
         (\<forall>v. v \<noteq> JNull \<and> (\<forall>s. v \<noteq> JStr s) \<longrightarrow> csv_cell E v = py_format E v)"
proof (intro conjI)
  from save_to_csv_Inr [OF assms] obtain row where r: "row_data E d = Inr row"
    and f: "files w' (log_name E directory) =
             Some ((case files w (log_name E directory) of
                      None \<Rightarrow> [Header fieldnames] | Some old \<Rightarrow> old) @
                   [Row (csv_cells E row)])"
    by blast
  note g = row_data_fields [OF r]
  have "csv_cells E row =
      [now_stamp E,
       (case data_source d of None \<Rightarrow> asc ''console'' | Some s \<Rightarrow> s),
       (case data_email d of None \<Rightarrow> [] | Some s \<Rightarrow> s),
       csv_cell E (original_concern row), csv_cell E (concern_summary row),
       csv_cell E (lacking_aspect row), csv_cell E (concept row),
       csv_cell E (concept_reason row), csv_cell E (selected_quote row),
       csv_cell E (quote_reason row), csv_cell E (advice row),
       py_format E (JFloat (time1 d)), py_format E (JFloat (time2 d))]"
    by (simp add: csv_cells_def g(9-13))
  with f g(1-8)
  show "\<exists>c1 c2 c3 c4 c5 a2 a3 a4.
            subscript (gomin_result d) step1 = Inr c1 \<and>
            subscript2 (gomin_result d) step3 key_summary = Inr c2 \<and>
            subscript2 (gomin_result d) step4 key_lacking = Inr c3 \<and>
            subscript2 (gomin_result d) step4 key_concept = Inr c4 \<and>
            subscript2 (gomin_result d) step4 key_reason = Inr c5 \<and>
            subscript (advice_result d) step2 = Inr a2 \<and>
            subscript (advice_result d) step3 = Inr a3 \<and>
            subscript (advice_result d) step4 = Inr a4 \<and>
            files w' (log_name E directory) =
              Some ((case files w (log_name E directory) of
                       None \<Rightarrow> [Header fieldnames] | Some old \<Rightarrow> old) @
                    [Row [now_stamp E,
                          (case data_source d of None \<Rightarrow> asc ''console'' | Some s \<Rightarrow> s),
                          (case data_email d of None \<Rightarrow> [] | Some s \<Rightarrow> s),
                          csv_cell E c1, csv_cell E c2, csv_cell E c3, csv_cell E c4,
                          csv_cell E c5, csv_cell E a2, csv_cell E a3, csv_cell E a4,
                          py_format E (JFloat (time1 d)), py_format E (JFloat (time2 d))]])"
    by (metis (no_types, lifting))
next
  show "\<forall>s. csv_cell E (JStr s) = s" by (simp add: csv_cell_def)
next
  show "csv_cell E JNull = []" by (simp add: csv_cell_def)
next
  show "\<forall>v. v \<noteq> JNull \<and> (\<forall>s. v \<noteq> JStr s) \<longrightarrow> csv_cell E v = py_format E v"
    by (simp add: csv_cell_def split: json.splits)
qed

theorem log_row_fields_witness:
  "files (fst (save_to_csv sample_env (sample_data ''one'' (JBool True)) (asc ''txtfiles'')
                 empty_world))
     (log_name sample_env (asc ''txtfiles'')) =
   Some [Header fieldnames,
         Row [asc ''2024-01-01 00:00:00'', asc ''console'', [], asc ''w'', asc ''s'', asc ''l'',
              asc ''c'', asc ''r'', asc ''A-1: x'', asc ''q'', asc ''True'', asc ''1.0'',
              asc ''2.0'']]"
proof -
  let ?d = "sample_data ''one'' (JBool True)"
  let ?r = "save_to_csv sample_env ?d (asc ''txtfiles'') empty_world"
  have "snd ?r = Inr ()" by (simp add: save_to_csv_def sample_row Let_def)
  then have h: "?r = (fst ?r, Inr ())" by (metis prod.collapse)
  have g: "subscript (gomin_result ?d) step1 = Inr (JStr (asc ''w''))"
    "subscript2 (gomin_result ?d) step3 key_summary = Inr (JStr (asc ''s''))"
    "subscript2 (gomin_result ?d) step4 key_lacking = Inr (JStr (asc ''l''))"
    "subscript2 (gomin_result ?d) step4 key_concept = Inr (JStr (asc ''c''))"
    "subscript2 (gomin_result ?d) step4 key_reason = Inr (JStr (asc ''r''))"
    "subscript (advice_result ?d) step2 = Inr (JStr (asc ''A-1: x''))"
    "subscript (advice_result ?d) step3 = Inr (JStr (asc ''q''))"
    "subscript (advice_result ?d) step4 = Inr (JBool True)"
    by (simp_all add: sample_data_def sample_gomin_def sample_advice_def subscript2_def
        bindE_def step1_def step2_def step3_def step4_def key_summary_def key_lacking_def
        key_concept_def key_reason_def asc_def)
  have e: "files empty_world (log_name sample_env (asc ''txtfiles'')) = None"
    by (simp add: empty_world_def)
  have p: "py_format sample_env (JBool True) = asc ''True''"
    "py_format sample_env (JFloat (time1 ?d)) = asc ''1.0''"
    "py_format sample_env (JFloat (time2 ?d)) = asc ''2.0''"
    "now_stamp sample_env = asc ''2024-01-01 00:00:00''"
    "data_source ?d = Some (asc ''console'')" "data_email ?d = Some []"
    by (simp_all add: sample_env_def sample_data_def)
  from log_row_fields [OF h] have
    a: "\<exists>c1 c2 c3 c4 c5 a2 a3 a4.
            subscript (gomin_result ?d) step1 = Inr c1 \<and>
            subscript2 (gomin_result ?d) step3 key_summary = Inr c2 \<and>
            subscript2 (gomin_result ?d) step4 key_lacking = Inr c3 \<and>
            subscript2 (gomin_result ?d) step4 key_concept = Inr c4 \<and>
            subscript2 (gomin_result ?d) step4 key_reason = Inr c5 \<and>
            subscript (advice_result ?d) step2 = Inr a2 \<and>
            subscript (advice_result ?d) step3 = Inr a3 \<and>
            subscript (advice_result ?d) step4 = Inr a4 \<and>
            files (fst ?r) (log_name sample_env (asc ''txtfiles'')) =
              Some ((case files empty_world (log_name sample_env (asc ''txtfiles'')) of
                       None \<Rightarrow> [Header fieldnames] | Some old \<Rightarrow> old) @
                    [Row [now_stamp sample_env,
                          (case data_source ?d of None \<Rightarrow> asc ''console'' | Some s \<Rightarrow> s),
                          (case data_email ?d of None \<Rightarrow> [] | Some s \<Rightarrow> s),
                          csv_cell sample_env c1, csv_cell sample_env c2, csv_cell sample_env c3,
                          csv_cell sample_env c4, csv_cell sample_env c5, csv_cell sample_env a2,
                          csv_cell sample_env a3, csv_cell sample_env a4,
                          py_format sample_env (JFloat (time1 ?d)),
                          py_format sample_env (JFloat (time2 ?d))]])"
    and s: "\<forall>s. csv_cell sample_env (JStr s) = s"
    and o: "\<forall>v. v \<noteq> JNull \<and> (\<forall>s. v \<noteq> JStr s) \<longrightarrow> csv_cell sample_env v = py_format sample_env v"
    by blast+
  from o have t: "csv_cell sample_env (JBool True) = asc ''True''" by (simp add: p(1))
  from a show ?thesis unfolding g e p by (simp add: s t)
qed

theorem log_row_fields_counterexample:
  "save_to_csv sample_env (sample_data ''one'' (JStr (asc ''a''))) (asc ''txtfiles'') empty_world =
   save_to_csv sample_env (sample_data ''two'' (JStr (asc ''a''))) (asc ''txtfiles'') empty_world \<and>
   snd (save_to_csv sample_env (sample_data ''one'' (JStr (asc ''a''))) (asc ''txtfiles'')
          empty_world) = Inr () \<and>
   subscript (advice_result (sample_data ''one'' (JStr (asc ''a'')))) step1 =
     Inr (JStr (asc ''one'')) \<and>
   subscript (advice_result (sample_data ''two'' (JStr (asc ''a'')))) step1 =
     Inr (JStr (asc ''two'')) \<and>
   asc ''one'' \<noteq> asc ''two'' \<and>
   save_to_csv sample_env (sample_data ''one'' JNull) (asc ''txtfiles'') empty_world =
   save_to_csv sample_env (sample_data ''one'' (JStr [])) (asc ''txtfiles'') empty_world \<and>
   snd (save_to_csv sample_env (sample_data ''one'' JNull) (asc ''txtfiles'') empty_world) =
     Inr () \<and>
   subscript (advice_result (sample_data ''one'' JNull)) step4 = Inr JNull \<and>
   subscript (advice_result (sample_data ''one'' (JStr []))) step4 = Inr (JStr []) \<and>
   JNull \<noteq> JStr []"
  by (simp add: save_to_csv_def sample_row Let_def csv_cells_def csv_cell_def empty_world_def)
    (simp add: sample_data_def sample_advice_def step1_def step2_def step3_def step4_def asc_def)

text \<open>
  C9. The code looks for the two words in the lowered subject; lowering leaves Hangul
  syllables alone and makes none, so the test is the same on the decoded subject itself.
  A message whose decoded subject has neither word leaves the state as it was: no
  request to the model, no log row, no reply. Conversely, whenever handling a message
  changes the state, its subject was decoded and has one of the two words.
\<close>

theorem subject_filter:
  assumes "lower_keeps_hangul E"
  shows "(\<forall>a subject.
            sender msg = Inr a \<and> decode_subject E (subject_header msg) = Inr subject \<and>
            \<not> str_in trigger_worry subject \<and> \<not> str_in trigger_counsel subject \<longrightarrow>
            process_single_email E msg w = (w, Inr ())) \<and>
         (fst (process_single_email E msg w) \<noteq> w \<longrightarrow>
            (\<exists>subject. decode_subject E (subject_header msg) = Inr subject \<and>
               (str_in trigger_worry subject \<or> str_in trigger_counsel subject)))"
proof (intro conjI allI impI)
  fix a subject
  assume "sender msg = Inr a \<and> decode_subject E (subject_header msg) = Inr subject \<and>
      \<not> str_in trigger_worry subject \<and> \<not> str_in trigger_counsel subject"
  with no_trigger_no_effect(2) [OF assms, of msg subject a w]
  show "process_single_email E msg w = (w, Inr ())" by simp
next
  assume ch: "fst (process_single_email E msg w) \<noteq> w"
  show "\<exists>subject. decode_subject E (subject_header msg) = Inr subject \<and>
      (str_in trigger_worry subject \<or> str_in trigger_counsel subject)"
  proof (cases "decode_subject E (subject_header msg)")
    case (Inl e)
    then have "fst (process_single_email E msg w) = w"
      by (simp add: process_single_email_def split: sum.splits)
    with ch show ?thesis by simp
  next
    case (Inr subject)
    with no_trigger_no_effect(1) [OF assms Inr, of w] ch show ?thesis by blast
  qed
qed

theorem subject_filter_witness:
  "process_single_email sample_env (sample_mail (asc ''Hello'')) empty_world =
     (empty_world, Inr ()) \<and>
   calls (fst (process_single_email sample_env (sample_mail trigger_worry) empty_world)) =
     [classify_request sample_env (asc ''hi'')] \<and>
   (\<exists>subject. decode_subject sample_env (subject_header (sample_mail trigger_worry)) = Inr subject \<and>
      (str_in trigger_worry subject \<or> str_in trigger_counsel subject))"
proof -
  have 1: "sender (sample_mail (asc ''Hello'')) = Inr (asc ''a@b.c'')"
    by (simp add: sample_mail_def)
  have 2: "decode_subject sample_env (subject_header (sample_mail (asc ''Hello''))) =
      Inr (asc ''Hello'')"
    by (simp add: sample_mail_def decode_subject_def bindE_def)
  have 3: "\<not> str_in trigger_worry (asc ''Hello'')" "\<not> str_in trigger_counsel (asc ''Hello'')"
    by (simp_all add: trigger_worry_def trigger_counsel_def asc_def startswith_def)
  have 4: "fst (process_single_email sample_env (sample_mail trigger_worry) empty_world) \<noteq> empty_world"
    unfolding sample_trigger_mail by (simp add: empty_world_def)
  from subject_filter [OF sample_lower, of "sample_mail (asc ''Hello'')" empty_world] 1 2 3
  have a: "process_single_email sample_env (sample_mail (asc ''Hello'')) empty_world =
     (empty_world, Inr ())" by blast
  from subject_filter [OF sample_lower, of "sample_mail trigger_worry" empty_world] 4
  have b: "\<exists>subject. decode_subject sample_env (subject_header (sample_mail trigger_worry)) = Inr subject \<and>
      (str_in trigger_worry subject \<or> str_in trigger_counsel subject)" by blast
  from a b show ?thesis by (simp add: sample_trigger_mail)
qed

end
